theory Spec2Isabelle
  imports Complex_Main "HOL-Library.Word" "HOL-Library.Sublist"
begin

unbundle bit_operations_syntax

section \<open>Machine types and C library helpers\<close>

type_synonym uint8_t = "8 word"
type_synonym uint32_t = "32 word"

text \<open>The classification functions of \<open>ctype.h\<close> in the C locale.\<close>

definition isspace :: "char \<Rightarrow> bool" where
  "isspace c = (c = CHR '' '' \<or> c = CHR 0x09 \<or> c = CHR 0x0A \<or> c = CHR 0x0B
                \<or> c = CHR 0x0C \<or> c = CHR 0x0D)"

definition isdigit :: "char \<Rightarrow> bool" where
  "isdigit c = (48 \<le> (of_char c :: nat) \<and> (of_char c :: nat) \<le> 57)"

text \<open>
  \<open>atoi\<close>: leading white space is skipped, one optional sign is read, then the longest run
  of decimal digits; anything else ends the number and no digits at all give 0. The result
  is the mathematical integer (C leaves the result undefined once it leaves \<open>int\<close>).
\<close>

fun atoi_digits :: "int \<Rightarrow> string \<Rightarrow> int" where
  "atoi_digits acc [] = acc"
| "atoi_digits acc (c # cs) =
     (if isdigit c then atoi_digits (acc * 10 + (of_char c - 48)) cs else acc)"

definition atoi :: "string \<Rightarrow> int" where
  "atoi s =
     (case dropWhile isspace s of
        [] \<Rightarrow> 0
      | c # cs \<Rightarrow>
          if c = CHR ''-'' then - atoi_digits 0 cs
          else if c = CHR ''+'' then atoi_digits 0 cs
          else atoi_digits 0 (c # cs))"


section \<open>R layer: the reversible substrate (r_layer.h, r_layer.c)\<close>

text \<open>
  Cells live on the heap and are shared by pointer between the runtime's cell array and its
  execution history. The model keeps the cells in the runtime's \<open>cells\<close> list and represents
  a cell pointer by the cell's position there (\<open>None\<close> is the null pointer); every array
  carries its length, so \<open>qubit_count\<close> and \<open>cell_count\<close> are the lengths of the lists.
\<close>

record HRIR_Cell =
  cell_id :: uint32_t
  opcode :: string
  args :: "string list"
  inverse :: "nat option"
  is_reversible :: bool
  canonical_path :: "string option"
  source_location :: "string option"
  executed :: bool

record R_Checkpoint =
  checkpoint_id :: nat
  qubit_state :: "uint8_t list"
  execution_index :: nat
  label :: "string option"
  timestamp :: nat

record R_Memory =
  qubits :: "uint8_t list"
  cells :: "HRIR_Cell list"
  checkpoints :: "R_Checkpoint list"
  execution_history :: "nat list"
  execution_count :: nat

record R_Runtime =
  memory :: R_Memory
  next_cell_id :: uint32_t
  instance_id :: uint32_t

definition qubit_count :: "R_Runtime \<Rightarrow> nat" where
  "qubit_count runtime = length (qubits (memory runtime))"

definition cell_count :: "R_Runtime \<Rightarrow> nat" where
  "cell_count runtime = length (cells (memory runtime))"

definition set_qubits :: "R_Runtime \<Rightarrow> uint8_t list \<Rightarrow> R_Runtime" where
  "set_qubits runtime q = runtime\<lparr>memory := (memory runtime)\<lparr>qubits := q\<rparr>\<rparr>"

definition r_runtime_init :: "uint32_t \<Rightarrow> uint32_t \<Rightarrow> R_Runtime" where
  "r_runtime_init n inst =
     \<lparr>memory = \<lparr>qubits = replicate (unat n) 0, cells = [], checkpoints = [],
                 execution_history = [], execution_count = 0\<rparr>,
      next_cell_id = 0, instance_id = inst\<rparr>"

text \<open>\<open>r_create_cell\<close> returns the pointer to the new cell, which it appends to the cell array.\<close>

definition r_create_cell ::
  "R_Runtime \<Rightarrow> string \<Rightarrow> string list \<Rightarrow> string option \<Rightarrow> nat \<times> R_Runtime" where
  "r_create_cell runtime opc as path =
     (let cell = \<lparr>cell_id = next_cell_id runtime, opcode = opc, args = as, inverse = None,
                  is_reversible = True, canonical_path = path, source_location = None,
                  executed = False\<rparr>;
          m = memory runtime
      in (length (cells m),
          runtime\<lparr>memory := m\<lparr>cells := cells m @ [cell]\<rparr>,
                  next_cell_id := next_cell_id runtime + 1\<rparr>))"

subsection \<open>The four gate primitives\<close>

definition r_execute_CCNOT ::
  "R_Runtime \<Rightarrow> uint32_t \<Rightarrow> uint32_t \<Rightarrow> uint32_t \<Rightarrow> bool \<times> R_Runtime" where
  "r_execute_CCNOT runtime a b c =
     (let q = qubits (memory runtime) in
      if qubit_count runtime \<le> unat a \<or> qubit_count runtime \<le> unat b
         \<or> qubit_count runtime \<le> unat c
      then (False, runtime)
      else if q ! unat a \<noteq> 0 \<and> q ! unat b \<noteq> 0
      then (True, set_qubits runtime (q[unat c := q ! unat c XOR 1]))
      else (True, runtime))"

definition r_execute_CNOT :: "R_Runtime \<Rightarrow> uint32_t \<Rightarrow> uint32_t \<Rightarrow> bool \<times> R_Runtime" where
  "r_execute_CNOT runtime a b =
     (let q = qubits (memory runtime) in
      if qubit_count runtime \<le> unat a \<or> qubit_count runtime \<le> unat b
      then (False, runtime)
      else if q ! unat a \<noteq> 0
      then (True, set_qubits runtime (q[unat b := q ! unat b XOR 1]))
      else (True, runtime))"

definition r_execute_NOT :: "R_Runtime \<Rightarrow> uint32_t \<Rightarrow> bool \<times> R_Runtime" where
  "r_execute_NOT runtime a =
     (let q = qubits (memory runtime) in
      if qubit_count runtime \<le> unat a then (False, runtime)
      else (True, set_qubits runtime (q[unat a := q ! unat a XOR 1])))"

definition r_execute_SWAP :: "R_Runtime \<Rightarrow> uint32_t \<Rightarrow> uint32_t \<Rightarrow> bool \<times> R_Runtime" where
  "r_execute_SWAP runtime a b =
     (let q = qubits (memory runtime) in
      if qubit_count runtime \<le> unat a \<or> qubit_count runtime \<le> unat b
      then (False, runtime)
      else (let temp = q ! unat a;
                q1 = q[unat a := q ! unat b];
                q2 = q1[unat b := temp]
            in (True, set_qubits runtime q2)))"

subsection \<open>Qubit access\<close>

definition r_read_qubit :: "R_Runtime \<Rightarrow> uint32_t \<Rightarrow> uint8_t" where
  "r_read_qubit runtime index =
     (if qubit_count runtime \<le> unat index then 0 else qubits (memory runtime) ! unat index)"

definition r_write_qubit :: "R_Runtime \<Rightarrow> uint32_t \<Rightarrow> uint8_t \<Rightarrow> bool \<times> R_Runtime" where
  "r_write_qubit runtime index v =
     (if qubit_count runtime \<le> unat index then (False, runtime)
      else (True, set_qubits runtime ((qubits (memory runtime))[unat index := v AND 1])))"

subsection \<open>Executing a cell\<close>

definition cell_at :: "R_Runtime \<Rightarrow> nat option \<Rightarrow> HRIR_Cell option" where
  "cell_at runtime p =
     (case p of
        None \<Rightarrow> None
      | Some i \<Rightarrow> if i < cell_count runtime then Some (cells (memory runtime) ! i) else None)"

text \<open>The local array \<open>uint32_t args[3] = {0}\<close>, filled from the first three arguments.\<close>

definition parsed_arg :: "string list \<Rightarrow> nat \<Rightarrow> uint32_t" where
  "parsed_arg as i = (if i < length as then word_of_int (atoi (as ! i)) else 0)"

text \<open>
  Writing slot \<open>n\<close> of the history array, which the source grows by doubling before the
  write when it is full.
\<close>

definition history_store :: "nat list \<Rightarrow> nat \<Rightarrow> nat \<Rightarrow> nat list" where
  "history_store h n p = (if n < length h then h[n := p] else h @ [p])"

definition record_execution :: "R_Runtime \<Rightarrow> nat \<Rightarrow> R_Runtime" where
  "record_execution runtime i =
     (let m = memory runtime
      in runtime\<lparr>memory := m\<lparr>
           cells := (cells m)[i := (cells m ! i)\<lparr>executed := True\<rparr>],
           execution_history := history_store (execution_history m) (execution_count m) i,
           execution_count := execution_count m + 1\<rparr>\<rparr>)"

definition r_execute_cell :: "R_Runtime \<Rightarrow> nat option \<Rightarrow> bool \<times> R_Runtime" where
  "r_execute_cell runtime p =
     (case cell_at runtime p of
        None \<Rightarrow> (False, runtime)
      | Some cell \<Rightarrow>
          if executed cell then (False, runtime)
          else
            (let as = args cell;
                 (success, runtime1) =
                   (if opcode cell = ''CCNOT'' \<and> length as = 3
                    then r_execute_CCNOT runtime (parsed_arg as 0) (parsed_arg as 1) (parsed_arg as 2)
                    else if opcode cell = ''CNOT'' \<and> length as = 2
                    then r_execute_CNOT runtime (parsed_arg as 0) (parsed_arg as 1)
                    else if opcode cell = ''NOT'' \<and> length as = 1
                    then r_execute_NOT runtime (parsed_arg as 0)
                    else if opcode cell = ''SWAP'' \<and> length as = 2
                    then r_execute_SWAP runtime (parsed_arg as 0) (parsed_arg as 1)
                    else (False, runtime))
             in if success then (True, record_execution runtime1 (the p))
                else (False, runtime1)))"

subsection \<open>Checkpoints\<close>

definition r_save_checkpoint :: "R_Runtime \<Rightarrow> string option \<Rightarrow> nat \<Rightarrow> R_Checkpoint \<times> R_Runtime" where
  "r_save_checkpoint runtime lbl now =
     (let m = memory runtime;
          checkpoint = \<lparr>checkpoint_id = length (checkpoints m), qubit_state = qubits m,
                        execution_index = execution_count m, label = lbl, timestamp = now\<rparr>
      in (checkpoint, runtime\<lparr>memory := m\<lparr>checkpoints := checkpoints m @ [checkpoint]\<rparr>\<rparr>))"

definition r_restore_checkpoint :: "R_Runtime \<Rightarrow> R_Checkpoint option \<Rightarrow> bool \<times> R_Runtime" where
  "r_restore_checkpoint runtime cp =
     (case cp of
        None \<Rightarrow> (False, runtime)
      | Some checkpoint \<Rightarrow>
          let m = memory runtime in
          if length (qubit_state checkpoint) \<noteq> length (qubits m) then (False, runtime)
          else (True, runtime\<lparr>memory := m\<lparr>
                  qubits := qubit_state checkpoint,
                  execution_count := execution_index checkpoint,
                  cells := map (\<lambda>(i, c). if execution_index checkpoint \<le> i
                                           then c\<lparr>executed := False\<rparr> else c)
                               (enumerate 0 (cells m))\<rparr>\<rparr>))"

subsection \<open>Inverses and time travel\<close>

definition r_get_inverse :: "nat option \<Rightarrow> nat option" where
  "r_get_inverse p = p"

definition r_execute_inverse :: "R_Runtime \<Rightarrow> nat option \<Rightarrow> bool \<times> R_Runtime" where
  "r_execute_inverse runtime p = r_execute_cell runtime p"

text \<open>
  Reading \<open>execution_history[i]\<close>: the slots below the length hold cell pointers; the
  source's array is zero-initialised, so a slot never written holds the null pointer.
\<close>

definition history_at :: "R_Runtime \<Rightarrow> nat \<Rightarrow> nat option" where
  "history_at runtime i =
     (let h = execution_history (memory runtime) in if i < length h then Some (h ! i) else None)"

text \<open>The loop of \<open>r_rewind_to_index\<close>: \<open>i\<close> counts down from the execution count to the target.\<close>

fun rewind_loop :: "nat \<Rightarrow> nat \<Rightarrow> R_Runtime \<Rightarrow> R_Runtime" where
  "rewind_loop target i runtime =
     (if target < i
      then rewind_loop target (i - 1)
             (snd (r_execute_inverse runtime (history_at runtime (i - 1))))
      else runtime)"

declare rewind_loop.simps [simp del]

definition r_rewind_to_index :: "R_Runtime \<Rightarrow> nat \<Rightarrow> bool \<times> R_Runtime" where
  "r_rewind_to_index runtime k =
     (if execution_count (memory runtime) < k then (False, runtime)
      else (let runtime1 = rewind_loop k (execution_count (memory runtime)) runtime
            in (True, runtime1\<lparr>memory := (memory runtime1)\<lparr>execution_count := k\<rparr>\<rparr>)))"

definition r_step_forward :: "R_Runtime \<Rightarrow> bool \<times> R_Runtime" where
  "r_step_forward runtime =
     (if cell_count runtime \<le> execution_count (memory runtime) then (False, runtime)
      else r_execute_cell runtime (Some (execution_count (memory runtime))))"

definition r_step_backward :: "R_Runtime \<Rightarrow> bool \<times> R_Runtime" where
  "r_step_backward runtime =
     (if execution_count (memory runtime) = 0 then (False, runtime)
      else r_rewind_to_index runtime (execution_count (memory runtime) - 1))"


section \<open>D layer: dissipative gates hosted on the R layer (d_layer.h, d_layer.c)\<close>

record D_Runtime =
  r_runtime :: R_Runtime
  ancilla_start :: uint32_t
  ancilla_count :: uint32_t

definition d_runtime_init :: "uint32_t \<Rightarrow> uint32_t \<Rightarrow> uint32_t \<Rightarrow> D_Runtime" where
  "d_runtime_init n anc inst =
     \<lparr>r_runtime = r_runtime_init (n + anc) inst, ancilla_start = n, ancilla_count = anc\<rparr>"

definition d_execute_AND ::
  "D_Runtime \<Rightarrow> uint32_t \<Rightarrow> uint32_t \<Rightarrow> uint32_t \<Rightarrow> bool \<times> D_Runtime" where
  "d_execute_AND runtime a b result =
     (let r = r_runtime runtime;
          result_val = r_read_qubit r result;
          r1 = (if result_val \<noteq> 0 then snd (r_execute_NOT r result) else r);
          (ok, r2) = r_execute_CCNOT r1 a b result
      in (ok, runtime\<lparr>r_runtime := r2\<rparr>))"

definition d_execute_OR ::
  "D_Runtime \<Rightarrow> uint32_t \<Rightarrow> uint32_t \<Rightarrow> uint32_t \<Rightarrow> bool \<times> D_Runtime" where
  "d_execute_OR runtime a b result =
     (if ancilla_count runtime < 2 then (False, runtime)
      else
        (let ancilla_a = ancilla_start runtime;
             ancilla_b = ancilla_start runtime + 1;
             r0 = r_runtime runtime;
             r1 = snd (r_write_qubit r0 ancilla_a (r_read_qubit r0 a));
             r2 = snd (r_execute_NOT r1 ancilla_a);
             r3 = snd (r_write_qubit r2 ancilla_b (r_read_qubit r2 b));
             r4 = snd (r_execute_NOT r3 ancilla_b);
             d5 = snd (d_execute_AND (runtime\<lparr>r_runtime := r4\<rparr>) ancilla_a ancilla_b result);
             r6 = snd (r_execute_NOT (r_runtime d5) result)
         in (True, d5\<lparr>r_runtime := r6\<rparr>)))"

definition d_execute_NAND ::
  "D_Runtime \<Rightarrow> uint32_t \<Rightarrow> uint32_t \<Rightarrow> uint32_t \<Rightarrow> bool \<times> D_Runtime" where
  "d_execute_NAND runtime a b result =
     (let d1 = snd (d_execute_AND runtime a b result);
          r2 = snd (r_execute_NOT (r_runtime d1) result)
      in (True, d1\<lparr>r_runtime := r2\<rparr>))"

definition d_execute_NOR ::
  "D_Runtime \<Rightarrow> uint32_t \<Rightarrow> uint32_t \<Rightarrow> uint32_t \<Rightarrow> bool \<times> D_Runtime" where
  "d_execute_NOR runtime a b result =
     (let d1 = snd (d_execute_OR runtime a b result);
          r2 = snd (r_execute_NOT (r_runtime d1) result)
      in (True, d1\<lparr>r_runtime := r2\<rparr>))"

definition d_execute_XOR ::
  "D_Runtime \<Rightarrow> uint32_t \<Rightarrow> uint32_t \<Rightarrow> uint32_t \<Rightarrow> bool \<times> D_Runtime" where
  "d_execute_XOR runtime a b result =
     (let r = r_runtime runtime;
          result_val = r_read_qubit r result;
          r1 = (if result_val \<noteq> 0 then snd (r_execute_NOT r result) else r);
          r2 = snd (r_execute_CNOT r1 a result);
          r3 = snd (r_execute_CNOT r2 b result)
      in (True, runtime\<lparr>r_runtime := r3\<rparr>))"

text \<open>The bit array seen through a D-layer runtime.\<close>

definition d_qubits :: "D_Runtime \<Rightarrow> uint8_t list" where
  "d_qubits runtime = qubits (memory (r_runtime runtime))"


text \<open>
  \<open>d_runtime_init\<close> places the ancilla bits after the data bits: an index is an ancilla
  index when it lies in \<open>[ancilla_start, ancilla_start + ancilla_count)\<close>, and the ancilla
  bits are allocated when that range lies inside the bit array (whose length is a
  \<open>uint32_t\<close> in the source).
\<close>

definition is_ancilla :: "D_Runtime \<Rightarrow> uint32_t \<Rightarrow> bool" where
  "is_ancilla runtime i =
     (unat (ancilla_start runtime) \<le> unat i
      \<and> unat i < unat (ancilla_start runtime) + unat (ancilla_count runtime))"

definition ancillas_allocated :: "D_Runtime \<Rightarrow> bool" where
  "ancillas_allocated runtime =
     (unat (ancilla_start runtime) + unat (ancilla_count runtime)
        \<le> qubit_count (r_runtime runtime)
      \<and> qubit_count (r_runtime runtime) < 2 ^ 32)"

subsection \<open>Concrete runtimes used as test inputs\<close>

text \<open>One bit, set to 1.\<close>

definition one_set_bit :: R_Runtime where
  "one_set_bit = snd (r_write_qubit (r_runtime_init 1 0) 0 1)"

text \<open>Three bits \<open>1, 1, 0\<close>.\<close>

definition bits_110 :: R_Runtime where
  "bits_110 = snd (r_write_qubit (snd (r_write_qubit (r_runtime_init 3 0) 0 1)) 1 1)"

text \<open>One bit and one cell \<open>NOT(0)\<close>, before and after one forward step.\<close>

definition not_program :: R_Runtime where
  "not_program = snd (r_create_cell (r_runtime_init 1 0) ''NOT'' [''0''] None)"

definition not_program_stepped :: R_Runtime where
  "not_program_stepped = snd (r_step_forward not_program)"

text \<open>D-layer runtimes: three data bits with two, or with no, ancilla bits; one data bit.\<close>

definition d_three_two :: D_Runtime where
  "d_three_two = d_runtime_init 3 2 0"

definition d_three_two_a_set :: D_Runtime where
  "d_three_two_a_set =
     d_three_two\<lparr>r_runtime := snd (r_write_qubit (r_runtime d_three_two) 0 1)\<rparr>"

definition d_three_none_a_set :: D_Runtime where
  "d_three_none_a_set =
     (d_runtime_init 3 0 0)\<lparr>r_runtime := snd (r_write_qubit (r_runtime (d_runtime_init 3 0 0)) 0 1)\<rparr>"

definition d_one_none :: D_Runtime where
  "d_one_none = d_runtime_init 1 0 0"

section \<open>L1 HRIR: cells, programs and the stepping runtime (hr_ir.h, hr_ir.c)\<close>

text \<open>
  \<open>hr_ir.h\<close> declares its own \<open>HRIR_Cell\<close>, distinct from the R layer's; here it is
  \<open>HRIR_Cell_L1\<close>. A cell owns its inverse cell, so the type is recursive. \<open>size_t\<close> is
  taken to be 64 bits wide; the program counter never exceeds the cell count and is a \<open>nat\<close>.
\<close>

type_synonym size_t = "64 word"

datatype HRIR_Cell_L1 =
  HRIR_Cell_L1
    (l1_id: uint32_t)
    (l1_opcode: string)
    (l1_args: "string list")
    (l1_inverse: "HRIR_Cell_L1 option")
    (l1_is_reversible: bool)
    (l1_source_location: "string option")
    (l1_line_number: uint32_t)
    (l1_canonical_path: "string option")
    (l1_executed: bool)
    (l1_result: "string option")

fun set_l1_id :: "uint32_t \<Rightarrow> HRIR_Cell_L1 \<Rightarrow> HRIR_Cell_L1" where
  "set_l1_id v (HRIR_Cell_L1 i opc as iv rv loc lno path ex res) =
     HRIR_Cell_L1 v opc as iv rv loc lno path ex res"

fun set_l1_inverse :: "HRIR_Cell_L1 option \<Rightarrow> HRIR_Cell_L1 \<Rightarrow> HRIR_Cell_L1" where
  "set_l1_inverse v (HRIR_Cell_L1 i opc as iv rv loc lno path ex res) =
     HRIR_Cell_L1 i opc as v rv loc lno path ex res"

fun set_l1_is_reversible :: "bool \<Rightarrow> HRIR_Cell_L1 \<Rightarrow> HRIR_Cell_L1" where
  "set_l1_is_reversible v (HRIR_Cell_L1 i opc as iv rv loc lno path ex res) =
     HRIR_Cell_L1 i opc as iv v loc lno path ex res"

fun set_l1_execution :: "bool \<Rightarrow> string option \<Rightarrow> HRIR_Cell_L1 \<Rightarrow> HRIR_Cell_L1" where
  "set_l1_execution e r (HRIR_Cell_L1 i opc as iv rv loc lno path ex res) =
     HRIR_Cell_L1 i opc as iv rv loc lno path e r"

record HRIR_Program =
  program_cells :: "HRIR_Cell_L1 list"
  pc :: nat
  source_name :: "string option"
  next_id :: uint32_t

record HRIR_Runtime =
  program :: HRIR_Program
  checkpoint :: nat
  steps_executed :: size_t
  rollbacks :: size_t

definition hr_ir_create_cell :: "string \<Rightarrow> string list \<Rightarrow> HRIR_Cell_L1" where
  "hr_ir_create_cell opc as = HRIR_Cell_L1 0 opc as None True None 0 None False None"

definition hr_ir_create_inverse :: "HRIR_Cell_L1 \<Rightarrow> HRIR_Cell_L1 option" where
  "hr_ir_create_inverse cell =
     (if \<not> l1_is_reversible cell then None
      else if l1_opcode cell = ''add'' then Some (hr_ir_create_cell ''subtract'' (l1_args cell))
      else if l1_opcode cell = ''subtract'' then Some (hr_ir_create_cell ''add'' (l1_args cell))
      else if l1_opcode cell = ''multiply'' then Some (hr_ir_create_cell ''divide'' (l1_args cell))
      else if l1_opcode cell = ''divide'' then Some (hr_ir_create_cell ''multiply'' (l1_args cell))
      else None)"

definition hr_ir_from_d_term_operation :: "string \<Rightarrow> string list \<Rightarrow> HRIR_Cell_L1" where
  "hr_ir_from_d_term_operation operation as =
     set_l1_is_reversible False (hr_ir_create_cell operation as)"

definition hr_ir_create_program :: "string option \<Rightarrow> HRIR_Program" where
  "hr_ir_create_program name =
     \<lparr>program_cells = [], pc = 0, source_name = name, next_id = 1\<rparr>"

definition hr_ir_add_cell :: "HRIR_Program \<Rightarrow> HRIR_Cell_L1 \<Rightarrow> bool \<times> HRIR_Program" where
  "hr_ir_add_cell prog cell =
     (let cell1 = set_l1_id (next_id prog) cell;
          cell2 = (if l1_is_reversible cell1 \<and> l1_inverse cell1 = None
                   then (case hr_ir_create_inverse cell1 of
                           Some iv \<Rightarrow> set_l1_inverse (Some iv) cell1
                         | None \<Rightarrow> cell1)
                   else cell1)
      in (True, prog\<lparr>program_cells := program_cells prog @ [cell2],
                      next_id := next_id prog + 1\<rparr>))"

definition hr_ir_get_cell :: "HRIR_Program \<Rightarrow> nat \<Rightarrow> HRIR_Cell_L1 option" where
  "hr_ir_get_cell prog index =
     (if length (program_cells prog) \<le> index then None else Some (program_cells prog ! index))"

text \<open>
  The runtime holds a pointer to the caller's program and mutates it; the model keeps the
  program inside the runtime record and hands it back with the runtime.
\<close>

definition hr_ir_create_runtime :: "HRIR_Program \<Rightarrow> HRIR_Runtime" where
  "hr_ir_create_runtime prog =
     \<lparr>program = prog, checkpoint = 0, steps_executed = 0, rollbacks = 0\<rparr>"

definition hr_ir_step :: "HRIR_Runtime \<Rightarrow> bool \<times> HRIR_Runtime" where
  "hr_ir_step runtime =
     (let prog = program runtime in
      if length (program_cells prog) \<le> pc prog then (False, runtime)
      else
        (let cell = set_l1_execution True (Some ''executed'') (program_cells prog ! pc prog)
         in (True, runtime\<lparr>
               program := prog\<lparr>program_cells := (program_cells prog)[pc prog := cell],
                               pc := pc prog + 1\<rparr>,
               steps_executed := steps_executed runtime + 1\<rparr>)))"

text \<open>
  \<open>hr_ir_undo\<close> reads \<open>cells[pc - 1]\<close> without a bound check; every program built through
  the API has \<open>pc \<le> cell_count\<close>, where the read is in range.
\<close>

definition hr_ir_undo :: "HRIR_Runtime \<Rightarrow> bool \<times> HRIR_Runtime" where
  "hr_ir_undo runtime =
     (let prog = program runtime in
      if pc prog = 0 then (False, runtime)
      else
        (let pc1 = pc prog - 1;
             cell = set_l1_execution False None (program_cells prog ! pc1)
         in (True, runtime\<lparr>
               program := prog\<lparr>program_cells := (program_cells prog)[pc1 := cell], pc := pc1\<rparr>,
               steps_executed := steps_executed runtime - 1,
               rollbacks := rollbacks runtime + 1\<rparr>)))"

definition hr_ir_is_complete :: "HRIR_Runtime \<Rightarrow> bool" where
  "hr_ir_is_complete runtime =
     (length (program_cells (program runtime)) \<le> pc (program runtime))"

section \<open>Consistency checker (consistency_checker.c)\<close>

record ConsistencyResult =
  is_consistent :: bool
  error_message :: "string option"
  operations_checked :: size_t
  side_effects_verified :: size_t

record ExpectedSideEffect =
  operation :: string
  effect_args :: "string list"
  should_succeed :: bool

text \<open>The lines the check prints for the cells it visits.\<close>

datatype check_event =
    R_term_reversible string
  | D_term_verified string
  | D_term_no_matching_effect string
  | D_term_unexpected string

text \<open>The variables of the loop of \<open>check_l1_l0_consistency\<close>.\<close>

record check_state =
  cs_runtime :: HRIR_Runtime
  cs_result :: ConsistencyResult
  cs_effect_index :: nat
  cs_printed :: "check_event list"

definition fail_with :: "string \<Rightarrow> check_state \<Rightarrow> check_state" where
  "fail_with msg st =
     st\<lparr>cs_result := (cs_result st)\<lparr>is_consistent := False, error_message := Some msg\<rparr>\<rparr>"

text \<open>
  One pass through the loop body for cell \<open>i\<close>; the flag tells whether the body left the loop
  with \<open>break\<close>.
\<close>

definition check_cell ::
  "ExpectedSideEffect list \<Rightarrow> nat \<Rightarrow> check_state \<Rightarrow> bool \<times> check_state" where
  "check_cell expected_effects i st0 =
     (let st = st0\<lparr>cs_result := (cs_result st0)\<lparr>
                  operations_checked := operations_checked (cs_result st0) + 1\<rparr>\<rparr>
      in case hr_ir_get_cell (program (cs_runtime st)) i of
           None \<Rightarrow> (False, st)
         | Some cell \<Rightarrow>
             (let (step_result, rt1) = hr_ir_step (cs_runtime st);
                  st1 = st\<lparr>cs_runtime := rt1\<rparr>
              in if l1_is_reversible cell then
                   (if \<not> step_result then (True, fail_with ''R-term operation failed'' st1)
                    else
                      (let (undone, rt2) = hr_ir_undo rt1;
                           st2 = st1\<lparr>cs_runtime := rt2\<rparr>
                       in if \<not> undone then (True, fail_with ''R-term undo failed'' st2)
                          else
                            (let (redone, rt3) = hr_ir_step rt2;
                                 st3 = st2\<lparr>cs_runtime := rt3\<rparr>
                             in if \<not> redone then (True, fail_with ''R-term redo failed'' st3)
                                else (False, st3\<lparr>cs_printed := cs_printed st3
                                                @ [R_term_reversible (l1_opcode cell)]\<rparr>))))
                 else if cs_effect_index st1 < length expected_effects then
                   (let expected = expected_effects ! cs_effect_index st1;
                        operation_matches = (l1_opcode cell = operation expected)
                    in if operation_matches then
                         (let st2 = st1\<lparr>
                                cs_result := (cs_result st1)\<lparr>side_effects_verified :=
                                  side_effects_verified (cs_result st1) + 1\<rparr>,
                                cs_printed := cs_printed st1 @ [D_term_verified (l1_opcode cell)]\<rparr>
                          in if step_result \<noteq> should_succeed expected
                             then (True, fail_with ''D-term side effect mismatch'' st2)
                             else (False, st2\<lparr>cs_effect_index := cs_effect_index st2 + 1\<rparr>))
                       else
                         (False, st1\<lparr>
                            cs_printed := cs_printed st1
                              @ [D_term_no_matching_effect (l1_opcode cell)],
                            cs_effect_index := cs_effect_index st1 + 1\<rparr>))
                 else
                   (False, st1\<lparr>cs_printed := cs_printed st1
                              @ [D_term_unexpected (l1_opcode cell)]\<rparr>)))"

text \<open>
  The loop \<open>for (i = 0; i < program->cell_count; i++)\<close>. Stepping and undoing never change
  the number of cells, so the bound is passed as \<open>n\<close>.
\<close>

function check_loop ::
  "ExpectedSideEffect list \<Rightarrow> nat \<Rightarrow> nat \<Rightarrow> check_state \<Rightarrow> check_state" where
  "check_loop expected_effects n i st =
     (if i < n
      then (case check_cell expected_effects i st of
              (True, st') \<Rightarrow> st'
            | (False, st') \<Rightarrow> check_loop expected_effects n (i + 1) st')
      else st)"
  by pat_completeness auto
termination
  by (relation "measure (\<lambda>(e, n, i, st). n - i)") auto

declare check_loop.simps [simp del]

definition check_l1_l0_consistency ::
  "HRIR_Program option \<Rightarrow> ExpectedSideEffect list option
     \<Rightarrow> ConsistencyResult \<times> check_event list \<times> HRIR_Program option" where
  "check_l1_l0_consistency prog_ptr effects_ptr =
     (let result = \<lparr>is_consistent = True, error_message = None, operations_checked = 0,
                    side_effects_verified = 0\<rparr>
      in case (prog_ptr, effects_ptr) of
           (Some prog, Some expected_effects) \<Rightarrow>
             (let st0 = \<lparr>cs_runtime = hr_ir_create_runtime prog, cs_result = result,
                         cs_effect_index = 0, cs_printed = []\<rparr>;
                  st = check_loop expected_effects (length (program_cells prog)) 0 st0;
                  result1 =
                    (if is_consistent (cs_result st) \<and> \<not> hr_ir_is_complete (cs_runtime st)
                     then (cs_result st)\<lparr>is_consistent := False,
                            error_message := Some ''Program did not complete''\<rparr>
                     else cs_result st)
              in (result1, cs_printed st, Some (program (cs_runtime st))))
         | _ \<Rightarrow>
             (result\<lparr>is_consistent := False, error_message := Some ''Invalid parameters''\<rparr>,
              [], prog_ptr))"

subsection \<open>Concrete programs used as test inputs\<close>

text \<open>Two irreversible cells, \<open>print\<close> then \<open>log\<close>.\<close>

definition print_log_program :: HRIR_Program where
  "print_log_program =
     snd (hr_ir_add_cell
            (snd (hr_ir_add_cell (hr_ir_create_program (Some ''demo''))
                    (hr_ir_from_d_term_operation ''print'' [''done''])))
            (hr_ir_from_d_term_operation ''log'' [''x'']))"

text \<open>Expected effects whose first operation name does not match the first cell.\<close>

definition write_log_effects :: "ExpectedSideEffect list" where
  "write_log_effects =
     [\<lparr>operation = ''write'', effect_args = [''done''], should_succeed = True\<rparr>,
      \<lparr>operation = ''log'', effect_args = [''x''], should_succeed = True\<rparr>]"

text \<open>Expected effects that declare the first cell's \<open>print\<close> to fail.\<close>

definition print_fails_effects :: "ExpectedSideEffect list" where
  "print_fails_effects =
     [\<lparr>operation = ''print'', effect_args = [''done''], should_succeed = False\<rparr>,
      \<lparr>operation = ''log'', effect_args = [''x''], should_succeed = True\<rparr>]"


section \<open>L3 Turchin actor runtime (l3_turchin.h, l3_turchin.c)\<close>

subsection \<open>String helpers\<close>

text \<open>
  Strings are C strings without their terminating zero. Reading \<open>s[0]\<close> of an empty string
  reads that zero, which equals none of the characters the code compares it with.
\<close>

definition isupper :: "char \<Rightarrow> bool" where
  "isupper c = (65 \<le> (of_char c :: nat) \<and> (of_char c :: nat) \<le> 90)"

definition islower :: "char \<Rightarrow> bool" where
  "islower c = (97 \<le> (of_char c :: nat) \<and> (of_char c :: nat) \<le> 122)"

definition isalnum :: "char \<Rightarrow> bool" where
  "isalnum c = (isdigit c \<or> isupper c \<or> islower c)"

definition double_quote :: char where
  "double_quote = CHR 0x22"

definition single_quote :: char where
  "single_quote = CHR 0x27"

definition is_quote :: "char \<Rightarrow> bool" where
  "is_quote c = (c = double_quote \<or> c = single_quote)"

text \<open>\<open>s[0]\<close> is a quote character.\<close>

definition starts_with_quote :: "string \<Rightarrow> bool" where
  "starts_with_quote s = (case s of [] \<Rightarrow> False | c # _ \<Rightarrow> is_quote c)"

definition l3_trim :: "string \<Rightarrow> string" where
  "l3_trim str = rev (dropWhile isspace (rev (dropWhile isspace str)))"

definition l3_starts_with :: "string \<Rightarrow> string \<Rightarrow> bool" where
  "l3_starts_with str pre = (take (length pre) str = pre)"

text \<open>
  \<open>l3_substring\<close>. The callers pass \<open>strlen(s) - 2\<close> as length for a string that starts with
  a quote; for the one-character string this wraps around in \<open>size_t\<close>, but then
  \<open>start >= str_len\<close> already returns the empty string, as the truncated subtraction of
  \<open>nat\<close> does here.
\<close>

definition l3_substring :: "string \<Rightarrow> nat \<Rightarrow> nat \<Rightarrow> string" where
  "l3_substring str start len =
     (if length str \<le> start then [] else take len (drop start str))"

text \<open>\<open>strstr\<close>: the position of the first occurrence of the needle.\<close>

fun strstr :: "string \<Rightarrow> string \<Rightarrow> nat option" where
  "strstr [] needle = (if needle = [] then Some 0 else None)"
| "strstr (c # cs) needle =
     (if take (length needle) (c # cs) = needle then Some 0
      else map_option Suc (strstr cs needle))"

text \<open>\<open>strpbrk(s, accept) != NULL\<close> and \<open>strchr\<close>.\<close>

definition strpbrk :: "string \<Rightarrow> string \<Rightarrow> bool" where
  "strpbrk s accept = (\<exists>c \<in> set s. c \<in> set accept)"

definition strchr :: "string \<Rightarrow> char \<Rightarrow> nat option" where
  "strchr s c = (if c \<in> set s then Some (length (takeWhile (\<lambda>d. d \<noteq> c) s)) else None)"

text \<open>\<open>snprintf(buf, n, ...)\<close> keeps at most \<open>n - 1\<close> characters.\<close>

definition snprintf :: "nat \<Rightarrow> string \<Rightarrow> string" where
  "snprintf n s = take (n - 1) s"

text \<open>Decimal output of \<open>%d\<close>.\<close>

definition digit_char :: "nat \<Rightarrow> char" where
  "digit_char d = char_of (of_char (CHR ''0'') + d)"

function string_of_nat :: "nat \<Rightarrow> string" where
  "string_of_nat n =
     (if 10 \<le> n then string_of_nat (n div 10) @ [digit_char (n mod 10)] else [digit_char n])"
  by pat_completeness auto
termination
  by (relation "measure id") auto

declare string_of_nat.simps [simp del]

definition string_of_int :: "int \<Rightarrow> string" where
  "string_of_int i =
     (if 0 \<le> i then string_of_nat (nat i) else CHR ''-'' # string_of_nat (nat (- i)))"

subsection \<open>\<open>atof\<close>\<close>

text \<open>
  The value \<open>atof\<close> (that is, \<open>strtod\<close>) reads from the start of a string: white space, an
  optional sign, then \<open>inf\<close>/\<open>infinity\<close>, \<open>nan\<close>, a hexadecimal or a decimal floating
  constant; 0 when none is there. The model keeps the exact rational value of the constant:
  the rounding to the nearest \<open>double\<close> is not modelled.
\<close>

datatype c_double = Finite rat | PlusInf | MinusInf | NaN

fun digits_value :: "nat \<Rightarrow> nat \<Rightarrow> string \<Rightarrow> nat" where
  "digits_value base acc [] = acc"
| "digits_value base acc (c # cs) =
     digits_value base
       (acc * base
        + (if isdigit c then of_char c - 48
           else if isupper c then of_char c - 55
           else of_char c - 87))
       cs"

definition isxdigit :: "char \<Rightarrow> bool" where
  "isxdigit c =
     (isdigit c \<or> (65 \<le> (of_char c :: nat) \<and> (of_char c :: nat) \<le> 70)
      \<or> (97 \<le> (of_char c :: nat) \<and> (of_char c :: nat) \<le> 102))"

definition tolower :: "char \<Rightarrow> char" where
  "tolower c = (if isupper c then char_of ((of_char c :: nat) + 32) else c)"

text \<open>
  An exponent part \<open>e\<close> (or \<open>p\<close>), optional sign, at least one decimal digit; 0 when it is
  malformed or absent, in which case nothing of it belongs to the number.
\<close>

definition exponent_part :: "char \<Rightarrow> string \<Rightarrow> int" where
  "exponent_part e s =
     (case s of
        [] \<Rightarrow> 0
      | c # cs \<Rightarrow>
          if tolower c \<noteq> e then 0
          else
            (let (neg, ds) =
                   (case cs of
                      [] \<Rightarrow> (False, [])
                    | d # r \<Rightarrow> if d = CHR ''-'' then (True, r)
                               else if d = CHR ''+'' then (False, r) else (False, cs));
                 digs = takeWhile isdigit ds
             in if digs = [] then 0
                else if neg then - int (digits_value 10 0 digs)
                else int (digits_value 10 0 digs)))"

definition scale :: "rat \<Rightarrow> nat \<Rightarrow> int \<Rightarrow> rat" where
  "scale m base e = (if 0 \<le> e then m * of_nat base ^ nat e else m / of_nat base ^ nat (- e))"

text \<open>
  A mantissa in the given base: digits, optionally a point and more digits, at least one
  digit in all; then the exponent part introduced by \<open>e\<close>.
\<close>

definition float_constant ::
  "(char \<Rightarrow> bool) \<Rightarrow> nat \<Rightarrow> nat \<Rightarrow> char \<Rightarrow> string \<Rightarrow> rat option" where
  "float_constant digit base ebase e s =
     (let ip = takeWhile digit s;
          r1 = dropWhile digit s;
          (fp, r2) =
            (case r1 of
               [] \<Rightarrow> ([], [])
             | c # cs \<Rightarrow> if c = CHR ''.'' then (takeWhile digit cs, dropWhile digit cs)
                         else ([], r1))
      in if ip = [] \<and> fp = [] then None
         else Some (scale (of_nat (digits_value base 0 (ip @ fp)) / of_nat base ^ length fp)
                      ebase (exponent_part e r2)))"

definition atof_unsigned :: "string \<Rightarrow> c_double" where
  "atof_unsigned s =
     (if map tolower (take 3 s) = ''inf'' then PlusInf
      else if map tolower (take 3 s) = ''nan'' then NaN
      else
        (case (if map tolower (take 2 s) = ''0x''
               then float_constant isxdigit 16 2 (CHR ''p'') (drop 2 s) else None) of
           Some v \<Rightarrow> Finite v
         | None \<Rightarrow>
             (case float_constant isdigit 10 10 (CHR ''e'') s of
                Some v \<Rightarrow> Finite v
              | None \<Rightarrow> Finite 0)))"

definition negate :: "c_double \<Rightarrow> c_double" where
  "negate d =
     (case d of Finite v \<Rightarrow> Finite (- v) | PlusInf \<Rightarrow> MinusInf | MinusInf \<Rightarrow> PlusInf
      | NaN \<Rightarrow> NaN)"

definition atof :: "string \<Rightarrow> c_double" where
  "atof s =
     (case dropWhile isspace s of
        [] \<Rightarrow> Finite 0
      | c # cs \<Rightarrow>
          if c = CHR ''-'' then negate (atof_unsigned cs)
          else if c = CHR ''+'' then atof_unsigned cs
          else atof_unsigned (c # cs))"

text \<open>The comparison operators of \<open>double\<close>; every comparison with a NaN is false.\<close>

definition double_less :: "c_double \<Rightarrow> c_double \<Rightarrow> bool" where
  "double_less x y =
     (case (x, y) of
        (NaN, _) \<Rightarrow> False
      | (_, NaN) \<Rightarrow> False
      | (Finite a, Finite b) \<Rightarrow> a < b
      | (MinusInf, MinusInf) \<Rightarrow> False
      | (MinusInf, _) \<Rightarrow> True
      | (_, PlusInf) \<Rightarrow> x \<noteq> PlusInf
      | _ \<Rightarrow> False)"

definition double_eq :: "c_double \<Rightarrow> c_double \<Rightarrow> bool" where
  "double_eq x y = (x \<noteq> NaN \<and> y \<noteq> NaN \<and> x = y)"

definition double_le :: "c_double \<Rightarrow> c_double \<Rightarrow> bool" where
  "double_le x y = (double_less x y \<or> double_eq x y)"

subsection \<open>Actor state\<close>

text \<open>
  \<open>L3_ActorState\<close> and the local variables of a handler are parallel arrays of keys and
  values searched from the front: association lists.
\<close>

type_synonym L3_ActorState = "(string \<times> string) list"

definition l3_state_create :: L3_ActorState where
  "l3_state_create = []"

fun l3_state_set :: "L3_ActorState \<Rightarrow> string \<Rightarrow> string \<Rightarrow> L3_ActorState" where
  "l3_state_set [] key v = [(key, v)]"
| "l3_state_set ((k, w) # rest) key v =
     (if k = key then (k, v) # rest else (k, w) # l3_state_set rest key v)"

fun l3_state_get :: "L3_ActorState \<Rightarrow> string \<Rightarrow> string option" where
  "l3_state_get [] key = None"
| "l3_state_get ((k, w) # rest) key = (if k = key then Some w else l3_state_get rest key)"

subsection \<open>Message queue\<close>

text \<open>
  The time stamp of a message (\<open>time(NULL)\<close>) is never read and is left out. A slot of the
  ring buffer that was never written holds no message pointer: \<open>None\<close>.
\<close>

record L3_Message =
  event :: string
  data :: string

record L3_MessageQueue =
  messages :: "L3_Message option list"
  count :: nat
  capacity :: nat
  head :: nat
  tail :: nat

definition l3_queue_create :: L3_MessageQueue where
  "l3_queue_create = \<lparr>messages = replicate 64 None, count = 0, capacity = 64, head = 0, tail = 0\<rparr>"

definition l3_queue_expand :: "L3_MessageQueue \<Rightarrow> L3_MessageQueue" where
  "l3_queue_expand queue =
     (let new_cap = capacity queue * 2;
          copied = map (\<lambda>i. messages queue ! ((head queue + i) mod capacity queue))
                       [0 ..< count queue]
      in queue\<lparr>messages := copied @ replicate (new_cap - count queue) None,
                capacity := new_cap, head := 0, tail := count queue\<rparr>)"

definition l3_queue_push ::
  "L3_MessageQueue \<Rightarrow> string \<Rightarrow> string option \<Rightarrow> bool \<times> L3_MessageQueue" where
  "l3_queue_push queue0 ev d =
     (let queue = (if capacity queue0 \<le> count queue0 then l3_queue_expand queue0 else queue0);
          msg = \<lparr>event = ev, data = (case d of None \<Rightarrow> ''{}'' | Some s \<Rightarrow> s)\<rparr>
      in (True, queue\<lparr>messages := (messages queue)[tail queue := Some msg],
                      tail := (tail queue + 1) mod capacity queue,
                      count := count queue + 1\<rparr>))"

definition l3_queue_pop :: "L3_MessageQueue \<Rightarrow> L3_Message option \<times> L3_MessageQueue" where
  "l3_queue_pop queue =
     (if count queue = 0 then (None, queue)
      else (messages queue ! head queue,
            queue\<lparr>head := (head queue + 1) mod capacity queue, count := count queue - 1\<rparr>))"

subsection \<open>Actors and the runtime\<close>

record L3_Handler =
  event_name :: string
  body_code :: string

record L3_ActorDefinition =
  def_name :: string
  def_role :: string
  initial_state :: L3_ActorState
  def_handlers :: "L3_Handler list"

record L3_Actor =
  actor_id :: int
  name :: string
  role :: string
  state :: L3_ActorState
  handlers :: "L3_Handler list"

record L3_ActorRuntime =
  actors :: "L3_Actor list"
  message_queues :: "L3_MessageQueue list"
  next_actor_id :: int
  running :: bool

definition actor_count :: "L3_ActorRuntime \<Rightarrow> nat" where
  "actor_count runtime = length (actors runtime)"

definition l3_runtime_init :: L3_ActorRuntime where
  "l3_runtime_init = \<lparr>actors = [], message_queues = [], next_actor_id = 1, running = False\<rparr>"

definition l3_spawn_actor :: "L3_ActorRuntime \<Rightarrow> L3_ActorDefinition \<Rightarrow> int \<times> L3_ActorRuntime" where
  "l3_spawn_actor runtime def =
     (let actor = \<lparr>actor_id = next_actor_id runtime, name = def_name def, role = def_role def,
                   state = fold (\<lambda>(k, v) s. l3_state_set s k v) (initial_state def)
                             l3_state_create,
                   handlers = def_handlers def\<rparr>
      in (actor_id actor,
          runtime\<lparr>actors := actors runtime @ [actor],
                  message_queues := message_queues runtime @ [l3_queue_create],
                  next_actor_id := next_actor_id runtime + 1\<rparr>))"

text \<open>The index of the first actor with the given id, as the search loop finds it.\<close>

fun find_actor_index :: "L3_Actor list \<Rightarrow> int \<Rightarrow> nat option" where
  "find_actor_index [] aid = None"
| "find_actor_index (a # as) aid =
     (if actor_id a = aid then Some 0 else map_option Suc (find_actor_index as aid))"

definition l3_send_message ::
  "L3_ActorRuntime \<Rightarrow> int \<Rightarrow> string \<Rightarrow> string option \<Rightarrow> bool \<times> L3_ActorRuntime" where
  "l3_send_message runtime aid ev d =
     (case find_actor_index (actors runtime) aid of
        None \<Rightarrow> (False, runtime)
      | Some actor_index \<Rightarrow>
          (let (success, queue) = l3_queue_push (message_queues runtime ! actor_index) ev d
           in (success,
               runtime\<lparr>message_queues := (message_queues runtime)[actor_index := queue]\<rparr>)))"

fun l3_get_actor_by_name :: "L3_Actor list \<Rightarrow> string \<Rightarrow> int" where
  "l3_get_actor_by_name [] nm = - 1"
| "l3_get_actor_by_name (a # as) nm =
     (if name a = nm then actor_id a else l3_get_actor_by_name as nm)"

subsection \<open>Execution context\<close>

text \<open>
  \<open>ctx.state\<close> points at the state of the actor that handles the message, and \<open>ctx.runtime\<close>
  at the runtime that holds this actor. Handler code reaches the state only through
  \<open>ctx.state\<close> and the runtime only to look up actor names and to enqueue messages, so the
  context carries both by value and \<open>l3_tick\<close> stores the state back into the actor.
\<close>

record L3_ExecutionContext =
  ctx_state :: L3_ActorState
  ctx_data :: string
  ctx_runtime :: L3_ActorRuntime
  ctx_actor_id :: int
  locals :: "(string \<times> string) list"

text \<open>The local variables are searched and updated exactly as the actor state is.\<close>

definition l3_set_local :: "L3_ExecutionContext \<Rightarrow> string \<Rightarrow> string \<Rightarrow> L3_ExecutionContext" where
  "l3_set_local ctx key v = ctx\<lparr>locals := l3_state_set (locals ctx) key v\<rparr>"

definition l3_get_local :: "L3_ExecutionContext \<Rightarrow> string \<Rightarrow> string option" where
  "l3_get_local ctx key = l3_state_get (locals ctx) key"

subsection \<open>Expression evaluation\<close>

fun number_tail :: "bool \<Rightarrow> bool \<Rightarrow> string \<Rightarrow> bool" where
  "number_tail has_digit has_dot [] = has_digit"
| "number_tail has_digit has_dot (c # cs) =
     (if isdigit c then number_tail True has_dot cs
      else if c = CHR ''.'' \<and> \<not> has_dot then number_tail has_digit True cs
      else False)"

definition l3_is_number :: "string \<Rightarrow> bool" where
  "l3_is_number str =
     (case str of
        [] \<Rightarrow> False
      | c # cs \<Rightarrow>
          if c = CHR ''-'' \<or> c = CHR ''+'' then number_tail False False cs
          else number_tail False False (c # cs))"

definition is_name_char :: "char \<Rightarrow> bool" where
  "is_name_char c = (isalnum c \<or> c = CHR ''_'')"

text \<open>
  The loop that replaces every \<open>state.X\<close> by the value of \<open>X\<close> (or by \<open>0\<close>) searches the
  whole string again after each replacement. It does not return when a value brings
  \<open>state.\<close> back, hence the result is an option: \<open>None\<close> stands for not returning.
\<close>

partial_function (option) replace_state_refs :: "L3_ActorState \<Rightarrow> string \<Rightarrow> string option" where
  "replace_state_refs st replaced =
     (case strstr replaced ''state.'' of
        None \<Rightarrow> Some replaced
      | Some state_pos \<Rightarrow>
          replace_state_refs st
            (take state_pos replaced
             @ (case l3_state_get st (takeWhile is_name_char (drop (state_pos + 6) replaced)) of
                  None \<Rightarrow> ''0''
                | Some var_value \<Rightarrow> var_value)
             @ dropWhile is_name_char (drop (state_pos + 6) replaced)))"

text \<open>One local variable: its first occurrence is replaced when it stands between word boundaries.\<close>

definition replace_local :: "string \<times> string \<Rightarrow> string \<Rightarrow> string" where
  "replace_local kv replaced =
     (let search = snprintf 256 (fst kv) in
      case strstr replaced search of
        None \<Rightarrow> replaced
      | Some pos \<Rightarrow>
          (let is_start = (pos = 0 \<or> \<not> isalnum (replaced ! (pos - 1)));
               rest = drop (pos + length search) replaced;
               is_end = (case rest of [] \<Rightarrow> True | c # _ \<Rightarrow> \<not> isalnum c)
           in if is_start \<and> is_end then take pos replaced @ snd kv @ rest else replaced))"

text \<open>
  Arithmetic is handed to the external calculator \<open>bc\<close> through \<open>popen\<close>. The process is a
  parameter of the model: \<open>sh cmd\<close> is what \<open>fgets\<close> reads from the command's output (its
  first line, at most 127 characters), or \<open>None\<close> when there is nothing to read.
\<close>

type_synonym shell = "string \<Rightarrow> string option"

definition run_bc :: "shell \<Rightarrow> string \<Rightarrow> string option" where
  "run_bc sh replaced =
     (case sh (snprintf 512 (''echo '' @ [single_quote] @ replaced @ [single_quote]
                              @ '' | bc 2>/dev/null'')) of
        None \<Rightarrow> None
      | Some result \<Rightarrow>
          Some (if result \<noteq> [] \<and> last result = CHR 0x0A then butlast result else result))"

text \<open>What is left when the expression is no literal and the calculator gave nothing.\<close>

definition lookup_expression :: "string \<Rightarrow> string \<Rightarrow> L3_ExecutionContext \<Rightarrow> string" where
  "lookup_expression expr trimmed ctx =
     (if l3_starts_with trimmed ''state.''
      then (case l3_state_get (ctx_state ctx) (drop 6 trimmed) of None \<Rightarrow> ''0'' | Some v \<Rightarrow> v)
      else (case l3_get_local ctx trimmed of Some local_val \<Rightarrow> local_val | None \<Rightarrow> expr))"

definition l3_evaluate_expression ::
  "shell \<Rightarrow> string \<Rightarrow> L3_ExecutionContext \<Rightarrow> string option" where
  "l3_evaluate_expression sh expr ctx =
     (let trimmed = l3_trim expr in
      if starts_with_quote trimmed then Some (l3_substring trimmed 1 (length trimmed - 2))
      else if l3_is_number trimmed then Some trimmed
      else if trimmed = ''true'' \<or> trimmed = ''false'' then Some trimmed
      else if strpbrk trimmed ''+-*/()'' then
        (case replace_state_refs (ctx_state ctx) trimmed of
           None \<Rightarrow> None
         | Some replaced \<Rightarrow>
             (case run_bc sh (fold replace_local (locals ctx) replaced) of
                Some result \<Rightarrow> Some result
              | None \<Rightarrow> Some (lookup_expression expr trimmed ctx)))
      else Some (lookup_expression expr trimmed ctx))"

subsection \<open>Conditions\<close>

definition compare_values :: "string \<Rightarrow> string \<Rightarrow> string \<Rightarrow> bool" where
  "compare_values op left_val right_val =
     (let left_num = atof left_val; right_num = atof right_val in
      if op = ''<'' then double_less left_num right_num
      else if op = ''>'' then double_less right_num left_num
      else if op = ''<='' then double_le left_num right_num
      else if op = ''>='' then double_le right_num left_num
      else if op = ''=='' then double_eq left_num right_num \<or> left_val = right_val
      else if op = ''!='' then \<not> double_eq left_num right_num \<and> left_val \<noteq> right_val
      else False)"

definition operators :: "string list" where
  "operators = [''<='', ''>='', ''=='', ''!='', ''<'', ''>'']"

text \<open>The first operator of the table that occurs anywhere in the condition, with its position.\<close>

fun find_operator :: "string list \<Rightarrow> string \<Rightarrow> (string \<times> nat) option" where
  "find_operator [] trimmed = None"
| "find_operator (op # ops) trimmed =
     (case strstr trimmed op of
        Some op_pos \<Rightarrow> Some (op, op_pos)
      | None \<Rightarrow> find_operator ops trimmed)"

definition l3_evaluate_condition ::
  "shell \<Rightarrow> string \<Rightarrow> L3_ExecutionContext \<Rightarrow> bool option" where
  "l3_evaluate_condition sh condition ctx =
     (let trimmed = l3_trim condition in
      case find_operator operators trimmed of
        Some (op, op_pos) \<Rightarrow>
          (let left_trimmed = l3_trim (l3_substring trimmed 0 op_pos);
               right_trimmed = l3_trim (drop (op_pos + length op) trimmed)
           in case l3_evaluate_expression sh left_trimmed ctx of
                None \<Rightarrow> None
              | Some left_val \<Rightarrow>
                  (case l3_evaluate_expression sh right_trimmed ctx of
                     None \<Rightarrow> None
                   | Some right_val \<Rightarrow> Some (compare_values op left_val right_val)))
      | None \<Rightarrow>
          (case l3_evaluate_expression sh trimmed ctx of
             None \<Rightarrow> None
           | Some val \<Rightarrow> Some (val = ''true'' \<or> atoi val \<noteq> 0)))"

subsection \<open>Statements\<close>

text \<open>Printing is not modelled: a \<open>log\<close> line leaves the context as it is.\<close>

definition l3_get_indent :: "string \<Rightarrow> int" where
  "l3_get_indent line = int (length (takeWhile (\<lambda>c. c = CHR '' '') line))"

definition first_is_upper :: "string \<Rightarrow> bool" where
  "first_is_upper s = (case s of [] \<Rightarrow> False | c # _ \<Rightarrow> isupper c)"

definition send_to_actor :: "string \<Rightarrow> nat \<Rightarrow> L3_ExecutionContext \<Rightarrow> L3_ExecutionContext" where
  "send_to_actor trimmed arrow_pos ctx =
     (let target_trimmed = l3_trim (l3_substring trimmed 0 arrow_pos);
          message_part = l3_trim (drop (arrow_pos + 2) trimmed);
          message_name =
            (case strchr message_part (CHR '' '') of
               Some space_pos \<Rightarrow> l3_substring message_part 0 space_pos
             | None \<Rightarrow> message_part);
          target_id = l3_get_actor_by_name (actors (ctx_runtime ctx)) target_trimmed
      in if target_id \<noteq> - 1
         then ctx\<lparr>ctx_runtime :=
                snd (l3_send_message (ctx_runtime ctx) target_id message_name
                       (Some (ctx_data ctx)))\<rparr>
         else ctx)"

definition l3_execute_line ::
  "shell \<Rightarrow> string \<Rightarrow> L3_ExecutionContext \<Rightarrow> L3_ExecutionContext option" where
  "l3_execute_line sh trimmed ctx =
     (if l3_starts_with trimmed ''self ->'' then Some ctx
      else if strstr trimmed ''->'' \<noteq> None \<and> first_is_upper trimmed then
        (case strstr trimmed ''->'' of
           None \<Rightarrow> Some ctx
         | Some arrow_pos \<Rightarrow> Some (send_to_actor trimmed arrow_pos ctx))
      else if l3_starts_with trimmed ''let '' then
        (let rest = drop 4 trimmed in
         case strstr rest ''->'' of
           None \<Rightarrow> Some ctx
         | Some arrow_pos \<Rightarrow>
             (let var_trimmed = l3_trim (l3_substring rest 0 arrow_pos);
                  value_expr = l3_trim (drop (arrow_pos + 2) rest)
              in case l3_evaluate_expression sh value_expr ctx of
                   None \<Rightarrow> None
                 | Some v \<Rightarrow> Some (l3_set_local ctx var_trimmed v)))
      else if strstr trimmed ''->'' \<noteq> None \<and> \<not> l3_starts_with trimmed ''let ''
              \<and> \<not> l3_starts_with trimmed ''if '' \<and> \<not> l3_starts_with trimmed ''while '' then
        (case strstr trimmed ''->'' of
           None \<Rightarrow> Some ctx
         | Some arrow_pos \<Rightarrow>
             (let target_trimmed = l3_trim (l3_substring trimmed 0 arrow_pos);
                  value_expr = l3_trim (drop (arrow_pos + 2) trimmed)
              in case l3_evaluate_expression sh value_expr ctx of
                   None \<Rightarrow> None
                 | Some v \<Rightarrow>
                     if l3_starts_with target_trimmed ''state.''
                     then Some (ctx\<lparr>ctx_state :=
                                  l3_state_set (ctx_state ctx) (drop 6 target_trimmed) v\<rparr>)
                     else Some (l3_set_local ctx target_trimmed v)))
      else Some ctx)"

subsection \<open>Blocks and control flow\<close>

text \<open>
  The scan that collects the body of an \<open>if\<close>, \<open>while\<close> or \<open>for\<close>: from \<open>idx\<close> on, up to the
  first non-blank line indented less than the first non-blank line of the body. It returns
  the end of the body and the body's indentation (\<open>-1\<close> when the body has no line).
\<close>

function collect_block :: "string list \<Rightarrow> nat \<Rightarrow> nat \<Rightarrow> int \<Rightarrow> nat \<times> int" where
  "collect_block lines idx line_count indent =
     (if idx < line_count then
        (let next_line = lines ! idx;
             next_trimmed = l3_trim next_line;
             next_indent = l3_get_indent next_line
         in if next_trimmed \<noteq> [] then
              (let indent1 = (if indent = - 1 then next_indent else indent)
               in if next_indent < indent1 then (idx, indent1)
                  else collect_block lines (idx + 1) line_count indent1)
            else collect_block lines (idx + 1) line_count indent)
      else (idx, indent))"
  by pat_completeness auto
termination
  by (relation "measure (\<lambda>(lines, idx, line_count, indent). line_count - idx)") auto

declare collect_block.simps [simp del]

definition max_iterations :: nat where
  "max_iterations = 10000"

text \<open>
  The loop \<open>while (l3_evaluate_condition(condition, ctx) && iterations < max_iterations)\<close>:
  the condition is evaluated first, the counter is compared second. The result carries the
  final value of \<open>iterations\<close>, which counts the executions of the loop body.
\<close>

function l3_while_loop ::
  "(L3_ExecutionContext \<Rightarrow> bool option) \<Rightarrow> (L3_ExecutionContext \<Rightarrow> L3_ExecutionContext option)
     \<Rightarrow> nat \<Rightarrow> L3_ExecutionContext \<Rightarrow> (nat \<times> L3_ExecutionContext) option" where
  "l3_while_loop cond body iterations ctx =
     (case cond ctx of
        None \<Rightarrow> None
      | Some holds \<Rightarrow>
          if holds \<and> iterations < max_iterations then
            (case body ctx of
               None \<Rightarrow> None
             | Some ctx' \<Rightarrow> l3_while_loop cond body (iterations + 1) ctx')
          else Some (iterations, ctx))"
  by pat_completeness auto
termination
  by (relation "measure (\<lambda>(cond, body, iterations, ctx). max_iterations - iterations)") auto

declare l3_while_loop.simps [simp del]

text \<open>
  The loop \<open>for (int i = start_num; i <= end_num; i++)\<close>, on mathematical integers (in C the
  increment past \<open>INT_MAX\<close> is undefined).
\<close>

function l3_for_loop ::
  "string \<Rightarrow> (L3_ExecutionContext \<Rightarrow> L3_ExecutionContext option)
     \<Rightarrow> int \<Rightarrow> int \<Rightarrow> L3_ExecutionContext \<Rightarrow> L3_ExecutionContext option" where
  "l3_for_loop var body i end_num ctx =
     (if i \<le> end_num then
        (case body (l3_set_local ctx var (string_of_int i)) of
           None \<Rightarrow> None
         | Some ctx' \<Rightarrow> l3_for_loop var body (i + 1) end_num ctx')
      else Some ctx)"
  by pat_completeness auto
termination
  by (relation "measure (\<lambda>(var, body, i, end_num, ctx). nat (end_num + 1 - i))") auto

declare l3_for_loop.simps [simp del]

text \<open>
  Facts the termination of \<open>l3_execute_block\<close> rests on: the loop combinators call their
  body on contexts only, and a collected body ends between its start and the end of the
  enclosing block.
\<close>

lemma l3_while_loop_cong [fundef_cong]:
  assumes "cond = cond'" and "\<And>c. body c = body' c" and "iterations = iterations'"
    and "ctx = ctx'"
  shows "l3_while_loop cond body iterations ctx = l3_while_loop cond' body' iterations' ctx'"
proof -
  have "body = body'" using assms(2) by (rule ext)
  with assms show ?thesis by simp
qed

lemma l3_for_loop_cong [fundef_cong]:
  assumes "var = var'" and "\<And>c. body c = body' c" and "i = i'" and "end_num = end_num'"
    and "ctx = ctx'"
  shows "l3_for_loop var body i end_num ctx = l3_for_loop var' body' i' end_num' ctx'"
proof -
  have "body = body'" using assms(2) by (rule ext)
  with assms show ?thesis by simp
qed

lemma collect_block_bounds:
  "idx \<le> fst (collect_block lines idx line_count indent)
   \<and> fst (collect_block lines idx line_count indent) \<le> max idx line_count"
proof (induction "line_count - idx" arbitrary: idx indent)
  case 0
  then show ?case
    by (subst (1 2) collect_block.simps) simp
next
  case (Suc n)
  have ih: "Suc idx \<le> fst (collect_block lines (Suc idx) line_count ind)
            \<and> fst (collect_block lines (Suc idx) line_count ind) \<le> max (Suc idx) line_count"
    for ind
    using Suc.hyps(1) [of "Suc idx" ind] Suc.hyps(2) by simp
  have lt: "idx < line_count"
    using Suc.hyps(2) by simp
  show ?case
    using lt ih [of indent] ih [of "l3_get_indent (lines ! idx)"]
    by (subst (1 2) collect_block.simps) (auto simp: Let_def)
qed

lemma collect_block_body_measure:
  assumes "line_idx < line_count"
  shows "fst (collect_block lines (Suc line_idx) line_count indent) - Suc line_idx
           < line_count - line_idx"
  using assms collect_block_bounds [of "Suc line_idx" lines line_count indent] by arith

lemma collect_block_rest_measure:
  assumes "line_idx < line_count"
  shows "line_count - fst (collect_block lines (Suc line_idx) line_count indent)
           < line_count - line_idx"
  using assms collect_block_bounds [of "Suc line_idx" lines line_count indent] by arith

text \<open>
  \<open>l3_execute_block\<close> runs the lines from \<open>line_idx\<close> up to \<open>line_count\<close> and returns the
  index it stopped at together with the context (\<open>None\<close> when an evaluation inside does not
  return). \<open>for_bounds\<close> gives the positions of \<open>in\<close> and \<open>to\<close> of a well-formed \<open>for\<close> line.
\<close>

definition for_bounds :: "string \<Rightarrow> (nat \<times> nat) option" where
  "for_bounds trimmed =
     (if l3_starts_with trimmed ''for '' then
        (case (strstr (drop 4 trimmed) '' in '', strstr (drop 4 trimmed) '' to '') of
           (Some in_pos, Some to_pos) \<Rightarrow> Some (in_pos, to_pos)
         | _ \<Rightarrow> None)
      else None)"

text \<open>
  The text between \<open>in\<close> and \<open>to\<close>. Its length \<open>to_pos - (in_pos + 4)\<close> is computed in
  \<open>size_t\<close>: when \<open>to\<close> stands before the end of \<open>in\<close> the difference wraps around and
  \<open>l3_substring\<close> cuts it down to the rest of the line.
\<close>

definition for_start_text :: "string \<Rightarrow> nat \<Rightarrow> nat \<Rightarrow> string" where
  "for_start_text rest in_pos to_pos =
     (if in_pos + 4 \<le> to_pos
      then l3_substring (drop (in_pos + 4) rest) 0 (to_pos - (in_pos + 4))
      else drop (in_pos + 4) rest)"

function l3_execute_block ::
  "shell \<Rightarrow> string list \<Rightarrow> nat \<Rightarrow> nat \<Rightarrow> int \<Rightarrow> L3_ExecutionContext
     \<Rightarrow> (nat \<times> L3_ExecutionContext) option" where
  "l3_execute_block sh lines line_idx line_count base_indent ctx =
     (if line_idx < line_count then
        (let line = lines ! line_idx;
             trimmed = l3_trim line
         in if trimmed = [] \<or> l3_starts_with trimmed ''//''
            then l3_execute_block sh lines (line_idx + 1) line_count base_indent ctx
            else if l3_get_indent line < base_indent then Some (line_idx, ctx)
            else if l3_starts_with trimmed ''if '' then
              (case l3_evaluate_condition sh (l3_trim (drop 3 trimmed)) ctx of
                 None \<Rightarrow> None
               | Some result \<Rightarrow>
                   (let if_start = line_idx + 1;
                        if_end = fst (collect_block lines if_start line_count (- 1));
                        if_indent = snd (collect_block lines if_start line_count (- 1))
                    in case (if result \<and> if_indent \<noteq> - 1
                             then map_option snd
                                    (l3_execute_block sh lines if_start if_end if_indent ctx)
                             else Some ctx) of
                         None \<Rightarrow> None
                       | Some ctx1 \<Rightarrow>
                           l3_execute_block sh lines if_end line_count base_indent ctx1))
            else if l3_starts_with trimmed ''while '' then
              (let condition = l3_trim (drop 6 trimmed);
                   while_start = line_idx + 1;
                   while_end = fst (collect_block lines while_start line_count (- 1));
                   while_indent = snd (collect_block lines while_start line_count (- 1))
               in case l3_while_loop (l3_evaluate_condition sh condition)
                         (\<lambda>c. if while_indent \<noteq> - 1
                              then map_option snd
                                     (l3_execute_block sh lines while_start while_end
                                        while_indent c)
                              else Some c)
                         0 ctx of
                    None \<Rightarrow> None
                  | Some (iterations, ctx1) \<Rightarrow>
                      l3_execute_block sh lines while_end line_count base_indent ctx1)
            else
              (case for_bounds trimmed of
                 Some (in_pos, to_pos) \<Rightarrow>
                   (let rest = drop 4 trimmed;
                        var_trimmed = l3_trim (l3_substring rest 0 in_pos);
                        start_trimmed = l3_trim (for_start_text rest in_pos to_pos);
                        end_str = l3_trim (drop (to_pos + 4) rest)
                    in case l3_evaluate_expression sh start_trimmed ctx of
                         None \<Rightarrow> None
                       | Some start_val \<Rightarrow>
                           (case l3_evaluate_expression sh end_str ctx of
                              None \<Rightarrow> None
                            | Some end_val \<Rightarrow>
                                (let for_start = line_idx + 1;
                                     for_end = fst (collect_block lines for_start line_count (- 1));
                                     for_indent = snd (collect_block lines for_start line_count (- 1))
                                 in case l3_for_loop var_trimmed
                                           (\<lambda>c. if for_indent \<noteq> - 1
                                                then map_option snd
                                                       (l3_execute_block sh lines for_start for_end
                                                          for_indent c)
                                                else Some c)
                                           (atoi start_val) (atoi end_val) ctx of
                                      None \<Rightarrow> None
                                    | Some ctx1 \<Rightarrow>
                                        l3_execute_block sh lines for_end line_count
                                          base_indent ctx1)))
               | None \<Rightarrow>
                   (case (if base_indent \<le> l3_get_indent line
                          then l3_execute_line sh trimmed ctx else Some ctx) of
                      None \<Rightarrow> None
                    | Some ctx1 \<Rightarrow>
                        l3_execute_block sh lines (line_idx + 1) line_count base_indent ctx1)))
      else Some (line_idx, ctx))"
  by pat_completeness auto
termination
  by (relation "measure (\<lambda>(sh, lines, line_idx, line_count, base_indent, ctx).
                  line_count - line_idx)")
     (auto simp: collect_block_body_measure collect_block_rest_measure)

declare l3_execute_block.simps [simp del]

subsection \<open>Handlers and the tick\<close>

text \<open>
  \<open>strtok(body, "\n")\<close> yields the non-empty pieces between line feeds, so blank lines of
  the body are not among the lines the block sees.
\<close>

fun strtok_lines :: "string \<Rightarrow> string \<Rightarrow> string list" where
  "strtok_lines cur [] = (if cur = [] then [] else [cur])"
| "strtok_lines cur (c # cs) =
     (if c = CHR 0x0A then (if cur = [] then strtok_lines [] cs else cur # strtok_lines [] cs)
      else strtok_lines (cur @ [c]) cs)"

definition l3_execute_handler ::
  "shell \<Rightarrow> string \<Rightarrow> L3_ExecutionContext \<Rightarrow> L3_ExecutionContext option" where
  "l3_execute_handler sh body ctx =
     (let lines = strtok_lines [] body
      in map_option snd (l3_execute_block sh lines 0 (length lines) 0 ctx))"

fun find_handler :: "L3_Handler list \<Rightarrow> string \<Rightarrow> L3_Handler option" where
  "find_handler [] ev = None"
| "find_handler (h # hs) ev = (if event_name h = ev then Some h else find_handler hs ev)"

text \<open>
  What \<open>l3_tick\<close> does with a message popped for actor \<open>i\<close>: run the first handler for its
  event, if there is one, and store the state the handler leaves back into the actor.
\<close>

definition l3_deliver ::
  "shell \<Rightarrow> nat \<Rightarrow> L3_Message \<Rightarrow> L3_ActorRuntime \<Rightarrow> L3_ActorRuntime option" where
  "l3_deliver sh i msg runtime =
     (let actor = actors runtime ! i in
      case find_handler (handlers actor) (event msg) of
        None \<Rightarrow> Some runtime
      | Some handler \<Rightarrow>
          (let ctx = \<lparr>ctx_state = state actor, ctx_data = data msg, ctx_runtime = runtime,
                      ctx_actor_id = actor_id actor, locals = []\<rparr>
           in case l3_execute_handler sh (body_code handler) ctx of
                None \<Rightarrow> None
              | Some ctx' \<Rightarrow>
                  Some ((ctx_runtime ctx')\<lparr>actors :=
                          (actors (ctx_runtime ctx'))
                            [i := (actors (ctx_runtime ctx') ! i)\<lparr>state := ctx_state ctx'\<rparr>]\<rparr>)))"

text \<open>The body of the loop of \<open>l3_tick\<close> for actor \<open>i\<close>.\<close>

definition l3_tick_actor :: "shell \<Rightarrow> nat \<Rightarrow> L3_ActorRuntime \<Rightarrow> L3_ActorRuntime option" where
  "l3_tick_actor sh i runtime =
     (let queue = message_queues runtime ! i in
      if 0 < count queue then
        (let popped = l3_queue_pop queue;
             runtime1 = runtime\<lparr>message_queues := (message_queues runtime)[i := snd popped]\<rparr>
         in case fst popped of
              None \<Rightarrow> Some runtime1
            | Some msg \<Rightarrow> l3_deliver sh i msg runtime1)
      else Some runtime)"

text \<open>
  The loop \<open>for (i = 0; i < runtime->actor_count; i++)\<close>. No statement of a handler spawns
  an actor, so the bound is passed as \<open>n\<close>.
\<close>

function l3_tick_loop ::
  "shell \<Rightarrow> nat \<Rightarrow> nat \<Rightarrow> L3_ActorRuntime \<Rightarrow> L3_ActorRuntime option" where
  "l3_tick_loop sh n i runtime =
     (if i < n then
        (case l3_tick_actor sh i runtime of
           None \<Rightarrow> None
         | Some runtime' \<Rightarrow> l3_tick_loop sh n (i + 1) runtime')
      else Some runtime)"
  by pat_completeness auto
termination
  by (relation "measure (\<lambda>(sh, n, i, runtime). n - i)") auto

declare l3_tick_loop.simps [simp del]

definition l3_tick :: "shell \<Rightarrow> L3_ActorRuntime \<Rightarrow> L3_ActorRuntime option" where
  "l3_tick sh runtime = l3_tick_loop sh (actor_count runtime) 0 runtime"

subsection \<open>The mailbox as a sequence\<close>

text \<open>
  The messages waiting in a ring buffer, oldest first, and the shape every queue made by
  \<open>l3_queue_create\<close>, \<open>l3_queue_push\<close> and \<open>l3_queue_pop\<close> has.
\<close>

definition queue_slots :: "L3_MessageQueue \<Rightarrow> L3_Message option list" where
  "queue_slots queue =
     map (\<lambda>i. messages queue ! ((head queue + i) mod capacity queue)) [0 ..< count queue]"

definition queue_contents :: "L3_MessageQueue \<Rightarrow> L3_Message list" where
  "queue_contents queue = map the (queue_slots queue)"

definition queue_ok :: "L3_MessageQueue \<Rightarrow> bool" where
  "queue_ok queue =
     (0 < capacity queue \<and> length (messages queue) = capacity queue
      \<and> head queue < capacity queue \<and> count queue \<le> capacity queue
      \<and> tail queue = (head queue + count queue) mod capacity queue
      \<and> None \<notin> set (queue_slots queue))"

definition runtime_ok :: "L3_ActorRuntime \<Rightarrow> bool" where
  "runtime_ok runtime =
     (length (message_queues runtime) = length (actors runtime)
      \<and> (\<forall>queue \<in> set (message_queues runtime). queue_ok queue))"

text \<open>The message \<open>l3_queue_push\<close> builds.\<close>

definition new_message :: "string \<Rightarrow> string option \<Rightarrow> L3_Message" where
  "new_message ev d = \<lparr>event = ev, data = (case d of None \<Rightarrow> ''{}'' | Some s \<Rightarrow> s)\<rparr>"


text \<open>The body of a \<open>while\<close> or \<open>for\<close> statement as \<open>l3_execute_block\<close> runs it.\<close>

definition block_body ::
  "shell \<Rightarrow> string list \<Rightarrow> nat \<Rightarrow> nat \<Rightarrow> int \<Rightarrow> L3_ExecutionContext
     \<Rightarrow> L3_ExecutionContext option" where
  "block_body sh lines body_start body_end indent c =
     (if indent \<noteq> - 1
      then map_option snd (l3_execute_block sh lines body_start body_end indent c)
      else Some c)"

subsection \<open>Concrete handlers and contexts used as test inputs\<close>

text \<open>An actor state with two fields that hold different words, in an empty runtime.\<close>

definition words_ctx :: L3_ExecutionContext where
  "words_ctx = \<lparr>ctx_state = [(''a'', ''abc''), (''b'', ''def'')], ctx_data = ''{}'',
                ctx_runtime = l3_runtime_init, ctx_actor_id = 1, locals = []\<rparr>"

text \<open>A shell that never prints anything.\<close>

definition silent_shell :: shell where
  "silent_shell cmd = None"



subsection \<open>Notions for stating the scheduling properties\<close>

text \<open>The messages waiting for the actor at index \<open>j\<close>, oldest first.\<close>

definition mailbox :: "L3_ActorRuntime \<Rightarrow> nat \<Rightarrow> L3_Message list" where
  "mailbox runtime j = queue_contents (message_queues runtime ! j)"

text \<open>
  \<open>sends_only runtime runtime'\<close>: the second runtime has the same actors as the first and
  every well-formed mailbox of the first is still well-formed and has only grown at its end.
\<close>

definition sends_only :: "L3_ActorRuntime \<Rightarrow> L3_ActorRuntime \<Rightarrow> bool" where
  "sends_only runtime runtime' =
     (actors runtime' = actors runtime
      \<and> length (message_queues runtime') = length (message_queues runtime)
      \<and> (\<forall>j < length (message_queues runtime).
            queue_ok (message_queues runtime ! j)
            \<longrightarrow> queue_ok (message_queues runtime' ! j)
                \<and> prefix (mailbox runtime j) (mailbox runtime' j)))"

definition ctx_sends_only :: "L3_ExecutionContext \<Rightarrow> L3_ExecutionContext \<Rightarrow> bool" where
  "ctx_sends_only ctx ctx' = sends_only (ctx_runtime ctx) (ctx_runtime ctx')"

text \<open>The runtime in which the message at the front of mailbox \<open>i\<close> has been popped.\<close>

definition popped :: "L3_ActorRuntime \<Rightarrow> nat \<Rightarrow> L3_ActorRuntime" where
  "popped runtime i =
     runtime\<lparr>message_queues :=
       (message_queues runtime)[i := snd (l3_queue_pop (message_queues runtime ! i))]\<rparr>"

text \<open>One actor that logs on event \<open>e\<close>, with two messages waiting.\<close>

definition logger_def :: L3_ActorDefinition where
  "logger_def = \<lparr>def_name = ''Logger'', def_role = ''logs'', initial_state = [],
                 def_handlers = [\<lparr>event_name = ''e'', body_code = ''log tick''\<rparr>]\<rparr>"

definition logger_runtime :: L3_ActorRuntime where
  "logger_runtime =
     snd (l3_send_message
            (snd (l3_send_message (snd (l3_spawn_actor l3_runtime_init logger_def))
                    1 ''e'' (Some ''1'')))
            1 ''e'' (Some ''2''))"


section \<open>Properties of the R layer\<close>

lemma qubits_set_qubits [simp]: "qubits (memory (set_qubits rt q)) = q"
  by (simp add: set_qubits_def)

lemma qubit_count_set_qubits [simp]: "qubit_count (set_qubits rt q) = length q"
  by (simp add: set_qubits_def qubit_count_def)

lemma set_qubits_twice [simp]: "set_qubits (set_qubits rt q) q' = set_qubits rt q'"
  by (simp add: set_qubits_def)

lemma set_qubits_same [simp]: "set_qubits rt (qubits (memory rt)) = rt"
  by (simp add: set_qubits_def)

lemma cells_set_qubits [simp]: "cells (memory (set_qubits rt q)) = cells (memory rt)"
  by (simp add: set_qubits_def)

lemma CCNOT_twice:
  assumes "unat a < qubit_count rt" "unat b < qubit_count rt" "unat c < qubit_count rt"
    and "c \<noteq> a" "c \<noteq> b"
  shows "fst (r_execute_CCNOT rt a b c)"
    and "r_execute_CCNOT (snd (r_execute_CCNOT rt a b c)) a b c = (True, rt)"
  using assms
  by (simp_all add: r_execute_CCNOT_def Let_def qubit_count_def xor.assoc word_unat_eq_iff)

lemma CNOT_twice:
  assumes "unat a < qubit_count rt" "unat b < qubit_count rt" "a \<noteq> b"
  shows "fst (r_execute_CNOT rt a b)"
    and "r_execute_CNOT (snd (r_execute_CNOT rt a b)) a b = (True, rt)"
  using assms
  by (simp_all add: r_execute_CNOT_def Let_def qubit_count_def xor.assoc word_unat_eq_iff)

lemma NOT_twice:
  assumes "unat a < qubit_count rt"
  shows "fst (r_execute_NOT rt a)"
    and "r_execute_NOT (snd (r_execute_NOT rt a)) a = (True, rt)"
  using assms by (simp_all add: r_execute_NOT_def Let_def qubit_count_def xor.assoc)

lemma SWAP_twice:
  assumes "unat a < qubit_count rt" "unat b < qubit_count rt"
  shows "fst (r_execute_SWAP rt a b)"
    and "r_execute_SWAP (snd (r_execute_SWAP rt a b)) a b = (True, rt)"
proof -
  show "fst (r_execute_SWAP rt a b)"
    using assms by (simp add: r_execute_SWAP_def Let_def)
  show "r_execute_SWAP (snd (r_execute_SWAP rt a b)) a b = (True, rt)"
  proof (cases "unat a = unat b")
    case True
    with assms show ?thesis by (simp add: r_execute_SWAP_def Let_def qubit_count_def)
  next
    case False
    with assms show ?thesis
      by (simp add: r_execute_SWAP_def Let_def qubit_count_def list_update_swap)
  qed
qed

text \<open>
  C1, as the code has it. Each primitive, applied twice to in-range operands, succeeds both
  times and gives back the runtime it started from: \<open>flip\<close> and \<open>swap\<close> for every choice of
  operands (also coinciding ones), \<open>toggle1\<close> when the target differs from the control, and
  \<open>toggle2\<close> when the target differs from both controls (the two controls may coincide).
\<close>

theorem gate_primitives_involution:
  assumes "unat a < qubit_count rt" and "unat b < qubit_count rt" and "unat c < qubit_count rt"
  shows "(c \<noteq> a \<and> c \<noteq> b \<longrightarrow>
            fst (r_execute_CCNOT rt a b c)
            \<and> r_execute_CCNOT (snd (r_execute_CCNOT rt a b c)) a b c = (True, rt))
       \<and> (a \<noteq> b \<longrightarrow>
            fst (r_execute_CNOT rt a b)
            \<and> r_execute_CNOT (snd (r_execute_CNOT rt a b)) a b = (True, rt))
       \<and> fst (r_execute_NOT rt a)
       \<and> r_execute_NOT (snd (r_execute_NOT rt a)) a = (True, rt)
       \<and> fst (r_execute_SWAP rt a b)
       \<and> r_execute_SWAP (snd (r_execute_SWAP rt a b)) a b = (True, rt)"
  using assms CCNOT_twice [of a rt b c] CNOT_twice [of a rt b] NOT_twice [of a rt]
    SWAP_twice [of a rt b]
  by blast

lemma replicate_3: "replicate 3 x = [x, x, x]"
  by (simp add: numeral_3_eq_3)

lemma replicate_5: "replicate 5 x = [x, x, x, x, x]"
  by (simp add: eval_nat_numeral)

lemma bits_110_qubits: "qubits (memory bits_110) = [1, 1, 0]"
  by (simp add: bits_110_def r_write_qubit_def r_runtime_init_def qubit_count_def replicate_3)

theorem gate_primitives_involution_witness:
  "unat (0 :: uint32_t) < qubit_count bits_110
   \<and> unat (1 :: uint32_t) < qubit_count bits_110
   \<and> unat (2 :: uint32_t) < qubit_count bits_110
   \<and> r_execute_CCNOT (snd (r_execute_CCNOT bits_110 0 1 2)) 0 1 2 = (True, bits_110)
   \<and> r_execute_CNOT (snd (r_execute_CNOT bits_110 0 1)) 0 1 = (True, bits_110)
   \<and> r_execute_NOT (snd (r_execute_NOT bits_110 0)) 0 = (True, bits_110)
   \<and> r_execute_SWAP (snd (r_execute_SWAP bits_110 0 1)) 0 1 = (True, bits_110)"
proof -
  have h: "unat (0 :: uint32_t) < qubit_count bits_110"
    "unat (1 :: uint32_t) < qubit_count bits_110"
    "unat (2 :: uint32_t) < qubit_count bits_110"
    by (simp_all add: qubit_count_def bits_110_qubits)
  show ?thesis
    using h gate_primitives_involution [OF h] by simp
qed

lemma one_set_bit_qubits: "qubits (memory one_set_bit) = [1]"
  by (simp add: one_set_bit_def r_write_qubit_def r_runtime_init_def qubit_count_def)

text \<open>
  C1 as stated fails when the target of a controlled gate is one of its own controls: on the
  one-bit array \<open>[1]\<close>, \<open>toggle1(0,0)\<close> and \<open>toggle2(0,0,0)\<close> clear the bit, and the second
  application then finds its control clear and leaves the bit at 0.
\<close>

theorem involution_coinciding_operands_counterexample:
  "unat (0 :: uint32_t) < qubit_count one_set_bit
   \<and> qubits (memory one_set_bit) = [1]
   \<and> qubits (memory (snd (r_execute_CNOT (snd (r_execute_CNOT one_set_bit 0 0)) 0 0))) = [0]
   \<and> qubits (memory (snd (r_execute_CCNOT (snd (r_execute_CCNOT one_set_bit 0 0 0)) 0 0 0))) = [0]
   \<and> snd (r_execute_CNOT (snd (r_execute_CNOT one_set_bit 0 0)) 0 0) \<noteq> one_set_bit"
proof -
  have q: "qubits (memory (snd (r_execute_CNOT (snd (r_execute_CNOT one_set_bit 0 0)) 0 0))) = [0]"
    by (simp add: r_execute_CNOT_def Let_def qubit_count_def one_set_bit_qubits)
  have "qubits (memory (snd (r_execute_CNOT (snd (r_execute_CNOT one_set_bit 0 0)) 0 0)))
          \<noteq> qubits (memory one_set_bit)"
    unfolding q one_set_bit_qubits by simp
  then have "snd (r_execute_CNOT (snd (r_execute_CNOT one_set_bit 0 0)) 0 0) \<noteq> one_set_bit"
    by metis
  moreover have
    "qubits (memory (snd (r_execute_CCNOT (snd (r_execute_CCNOT one_set_bit 0 0 0)) 0 0 0))) = [0]"
    by (simp add: r_execute_CCNOT_def Let_def qubit_count_def one_set_bit_qubits)
  ultimately show ?thesis
    using q by (simp add: qubit_count_def one_set_bit_qubits)
qed

text \<open>
  C5, as the code has it. A gate primitive given an out-of-range index returns \<open>false\<close> and
  returns the runtime unchanged. Of the D-layer gates, \<open>AND\<close> reports the failure as well
  (it returns what its final \<open>toggle2\<close> returns).
\<close>

theorem out_of_range_primitives_fail_cleanly:
  "(qubit_count rt \<le> unat a \<or> qubit_count rt \<le> unat b \<or> qubit_count rt \<le> unat c
      \<longrightarrow> r_execute_CCNOT rt a b c = (False, rt))
   \<and> (qubit_count rt \<le> unat a \<or> qubit_count rt \<le> unat b
      \<longrightarrow> r_execute_CNOT rt a b = (False, rt) \<and> r_execute_SWAP rt a b = (False, rt))
   \<and> (qubit_count rt \<le> unat a \<longrightarrow> r_execute_NOT rt a = (False, rt))
   \<and> (qubit_count (r_runtime d) \<le> unat a \<or> qubit_count (r_runtime d) \<le> unat b
        \<or> qubit_count (r_runtime d) \<le> unat c
      \<longrightarrow> \<not> fst (d_execute_AND d a b c))"
proof -
  have "\<not> fst (d_execute_AND d a b c)"
    if "qubit_count (r_runtime d) \<le> unat a \<or> qubit_count (r_runtime d) \<le> unat b
        \<or> qubit_count (r_runtime d) \<le> unat c"
    using that
    by (auto simp add: d_execute_AND_def r_execute_CCNOT_def r_execute_NOT_def r_read_qubit_def
        qubit_count_def Let_def split_beta)
  then show ?thesis
    by (auto simp add: r_execute_CCNOT_def r_execute_CNOT_def r_execute_SWAP_def
        r_execute_NOT_def Let_def)
qed

theorem out_of_range_primitives_fail_cleanly_witness:
  "qubit_count bits_110 \<le> unat (7 :: uint32_t)
   \<and> r_execute_CCNOT bits_110 7 0 1 = (False, bits_110)
   \<and> r_execute_CNOT bits_110 7 0 = (False, bits_110)
   \<and> r_execute_SWAP bits_110 7 0 = (False, bits_110)
   \<and> r_execute_NOT bits_110 7 = (False, bits_110)
   \<and> qubit_count (r_runtime d_one_none) \<le> unat (7 :: uint32_t)
   \<and> \<not> fst (d_execute_AND d_one_none 7 0 1)"
proof -
  have h: "qubit_count bits_110 \<le> unat (7 :: uint32_t)"
    by (simp add: qubit_count_def bits_110_qubits)
  have h': "qubit_count (r_runtime d_one_none) \<le> unat (7 :: uint32_t)"
    by (simp add: qubit_count_def d_one_none_def d_runtime_init_def r_runtime_init_def)
  show ?thesis
    using h h' out_of_range_primitives_fail_cleanly [of bits_110 7 0 1 d_one_none] by simp
qed

text \<open>
  C5 as stated fails for the D-layer gates, which check no index themselves. On a single
  clear bit, \<open>NAND\<close> with the out-of-range operand 5 returns \<open>true\<close> and has set bit 0.
\<close>

theorem d_layer_out_of_range_counterexample:
  "qubit_count (r_runtime d_one_none) \<le> unat (5 :: uint32_t)
   \<and> d_qubits d_one_none = [0]
   \<and> fst (d_execute_NAND d_one_none 5 0 0)
   \<and> d_qubits (snd (d_execute_NAND d_one_none 5 0 0)) = [1]"
  by (simp add: d_one_none_def d_runtime_init_def r_runtime_init_def d_qubits_def
      d_execute_NAND_def d_execute_AND_def r_execute_CCNOT_def r_execute_NOT_def
      r_read_qubit_def qubit_count_def Let_def)

subsection \<open>Cells are executed at most once\<close>


lemma atoi_zero: "atoi ''0'' = 0"
  by (simp add: atoi_def isspace_def isdigit_def)

lemma not_program_unfold:
  "not_program =
     \<lparr>memory = \<lparr>qubits = [0],
                 cells = [\<lparr>cell_id = 0, opcode = ''NOT'', args = [''0''], inverse = None,
                           is_reversible = True, canonical_path = None,
                           source_location = None, executed = False\<rparr>],
                 checkpoints = [], execution_history = [], execution_count = 0\<rparr>,
      next_cell_id = 1, instance_id = 0\<rparr>"
  by (simp add: not_program_def r_create_cell_def r_runtime_init_def Let_def)

lemma not_program_step:
  "r_step_forward not_program =
     (True,
      \<lparr>memory = \<lparr>qubits = [1],
                 cells = [\<lparr>cell_id = 0, opcode = ''NOT'', args = [''0''], inverse = None,
                           is_reversible = True, canonical_path = None,
                           source_location = None, executed = True\<rparr>],
                 checkpoints = [], execution_history = [0], execution_count = 1\<rparr>,
      next_cell_id = 1, instance_id = 0\<rparr>)"
  by (simp add: not_program_unfold r_step_forward_def cell_count_def r_execute_cell_def
      cell_at_def parsed_arg_def atoi_zero r_execute_NOT_def qubit_count_def Let_def
      record_execution_def history_store_def set_qubits_def)

lemma not_program_stepped_unfold:
  "not_program_stepped =
      \<lparr>memory = \<lparr>qubits = [1],
                 cells = [\<lparr>cell_id = 0, opcode = ''NOT'', args = [''0''], inverse = None,
                           is_reversible = True, canonical_path = None,
                           source_location = None, executed = True\<rparr>],
                 checkpoints = [], execution_history = [0], execution_count = 1\<rparr>,
      next_cell_id = 1, instance_id = 0\<rparr>"
  by (simp add: not_program_stepped_def not_program_step)


text \<open>
  C2 is not what the code does. After the single cell \<open>NOT(0)\<close> has been stepped, the bit is 1
  and the execution count is 1. \<open>r_rewind_to_index\<close> to index 0 hands the cell to
  \<open>r_execute_inverse\<close>, which refuses it because its \<open>executed\<close> flag is set: the rewind
  reports success and resets the execution count to 0, but the bit is still 1, not the 0 it
  was at position 0.
\<close>

theorem rewind_does_not_restore_bits:
  "qubits (memory not_program) = [0]
   \<and> execution_count (memory not_program) = 0
   \<and> fst (r_step_forward not_program)
   \<and> qubits (memory not_program_stepped) = [1]
   \<and> execution_count (memory not_program_stepped) = 1
   \<and> fst (r_rewind_to_index not_program_stepped 0)
   \<and> qubits (memory (snd (r_rewind_to_index not_program_stepped 0))) = [1]
   \<and> execution_count (memory (snd (r_rewind_to_index not_program_stepped 0))) = 0"
proof -
  have e: "r_execute_inverse not_program_stepped (history_at not_program_stepped 0)
             = (False, not_program_stepped)"
    by (simp add: r_execute_inverse_def r_execute_cell_def cell_at_def cell_count_def
        history_at_def not_program_stepped_unfold)
  have "rewind_loop 0 0 not_program_stepped = not_program_stepped"
    by (subst rewind_loop.simps) simp
  then have l: "rewind_loop 0 (Suc 0) not_program_stepped = not_program_stepped"
    by (subst rewind_loop.simps) (simp add: e)
  have c: "execution_count (memory not_program_stepped) = 1"
    by (simp add: not_program_stepped_unfold)
  have r: "r_rewind_to_index not_program_stepped 0 =
        (True, not_program_stepped\<lparr>memory := (memory not_program_stepped)\<lparr>execution_count := 0\<rparr>\<rparr>)"
    by (simp add: r_rewind_to_index_def c l Let_def)
  show ?thesis
    unfolding r by (simp add: not_program_step) (simp add: not_program_unfold not_program_stepped_unfold)
qed

text \<open>
  The same holds in general: while the history entries point at cells whose \<open>executed\<close> flag
  is set, the loop of \<open>r_rewind_to_index\<close> changes nothing at all.
\<close>

lemma rewind_loop_executed_cells:
  assumes "\<forall>j < i. \<exists>cell. cell_at runtime (history_at runtime j) = Some cell \<and> executed cell"
  shows "rewind_loop k i runtime = runtime"
  using assms
proof (induction i)
  case 0
  show ?case by (subst rewind_loop.simps) simp
next
  case (Suc i)
  then obtain cell where "cell_at runtime (history_at runtime i) = Some cell" "executed cell"
    by blast
  then have "r_execute_inverse runtime (history_at runtime i) = (False, runtime)"
    by (simp add: r_execute_inverse_def r_execute_cell_def)
  moreover have "rewind_loop k i runtime = runtime"
    using Suc by simp
  ultimately show ?case by (subst rewind_loop.simps) simp
qed


section \<open>Properties of the D layer\<close>

text \<open>What each primitive does to the bit array.\<close>

lemma qubits_NOT:
  "qubits (memory (snd (r_execute_NOT rt a))) =
     (let q = qubits (memory rt) in if unat a < length q then q[unat a := q ! unat a XOR 1] else q)"
  by (simp add: r_execute_NOT_def Let_def qubit_count_def)

lemma qubits_CNOT:
  "qubits (memory (snd (r_execute_CNOT rt a b))) =
     (let q = qubits (memory rt) in
      if unat a < length q \<and> unat b < length q \<and> q ! unat a \<noteq> 0
      then q[unat b := q ! unat b XOR 1] else q)"
  by (simp add: r_execute_CNOT_def Let_def qubit_count_def)

lemma qubits_CCNOT:
  "qubits (memory (snd (r_execute_CCNOT rt a b c))) =
     (let q = qubits (memory rt) in
      if unat a < length q \<and> unat b < length q \<and> unat c < length q
         \<and> q ! unat a \<noteq> 0 \<and> q ! unat b \<noteq> 0
      then q[unat c := q ! unat c XOR 1] else q)"
  by (simp add: r_execute_CCNOT_def Let_def qubit_count_def)

lemma qubits_write:
  "qubits (memory (snd (r_write_qubit rt a v))) =
     (let q = qubits (memory rt) in if unat a < length q then q[unat a := v AND 1] else q)"
  by (simp add: r_write_qubit_def Let_def qubit_count_def)

lemma read_qubit:
  "r_read_qubit rt a = (let q = qubits (memory rt) in if unat a < length q then q ! unat a else 0)"
  by (simp add: r_read_qubit_def Let_def qubit_count_def)

lemmas d_gate_defs =
  d_execute_AND_def d_execute_XOR_def d_execute_NAND_def d_execute_OR_def d_execute_NOR_def

lemmas prim_qubits = read_qubit qubits_NOT qubits_CNOT qubits_CCNOT qubits_write

lemma ancilla_succ:
  assumes "ancillas_allocated rt" and "2 \<le> ancilla_count rt"
  shows "unat (ancilla_start rt + 1) = Suc (unat (ancilla_start rt))"
    and "unat (ancilla_start rt) < length (qubits (memory (r_runtime rt)))"
    and "Suc (unat (ancilla_start rt)) < length (qubits (memory (r_runtime rt)))"
proof -
  have c: "2 \<le> unat (ancilla_count rt)"
    using assms(2) by (simp add: word_le_nat_alt)
  then show *: "Suc (unat (ancilla_start rt)) < length (qubits (memory (r_runtime rt)))"
    using assms(1) by (simp add: ancillas_allocated_def qubit_count_def)
  then show "unat (ancilla_start rt) < length (qubits (memory (r_runtime rt)))"
    by simp
  have "unat (ancilla_start rt) + 1 < 2 ^ 32"
    using * assms(1) by (simp add: ancillas_allocated_def qubit_count_def)
  then show "unat (ancilla_start rt + 1) = Suc (unat (ancilla_start rt))"
    by (simp add: unat_word_ariths)
qed

lemma not_ancilla:
  assumes "2 \<le> ancilla_count rt" and "\<not> is_ancilla rt i"
  shows "unat i \<noteq> unat (ancilla_start rt)" and "unat i \<noteq> Suc (unat (ancilla_start rt))"
    and "unat (ancilla_start rt) \<noteq> unat i" and "Suc (unat (ancilla_start rt)) \<noteq> unat i"
proof -
  have c: "2 \<le> unat (ancilla_count rt)"
    using assms(1) by (simp add: word_le_nat_alt)
  show "unat i \<noteq> unat (ancilla_start rt)" and "unat i \<noteq> Suc (unat (ancilla_start rt))"
    and "unat (ancilla_start rt) \<noteq> unat i" and "Suc (unat (ancilla_start rt)) \<noteq> unat i"
    using assms(2) c by (auto simp: is_ancilla_def)
qed

text \<open>The gates that need no ancilla bit.\<close>

lemma AND_XOR_NAND_truth_table:
  assumes rg: "unat a < length (d_qubits rt)" "unat b < length (d_qubits rt)"
      "unat r < length (d_qubits rt)"
    and ne: "r \<noteq> a" "r \<noteq> b"
    and bits: "d_qubits rt ! unat a \<in> {0, 1}" "d_qubits rt ! unat b \<in> {0, 1}"
      "d_qubits rt ! unat r \<in> {0, 1}"
  shows "fst (d_execute_AND rt a b r)"
    and "d_qubits (snd (d_execute_AND rt a b r)) ! unat r
          = (d_qubits rt ! unat a) AND (d_qubits rt ! unat b)"
    and "fst (d_execute_XOR rt a b r)"
    and "d_qubits (snd (d_execute_XOR rt a b r)) ! unat r
          = (d_qubits rt ! unat a) XOR (d_qubits rt ! unat b)"
    and "fst (d_execute_NAND rt a b r)"
    and "d_qubits (snd (d_execute_NAND rt a b r)) ! unat r
          = ((d_qubits rt ! unat a) AND (d_qubits rt ! unat b)) XOR 1"
proof -
  have n: "unat r \<noteq> unat a" "unat r \<noteq> unat b"
    using ne by (simp_all add: word_unat_eq_iff)
  have b: "qubits (memory (r_runtime rt)) ! unat a = 0 \<or> qubits (memory (r_runtime rt)) ! unat a = 1"
    "qubits (memory (r_runtime rt)) ! unat b = 0 \<or> qubits (memory (r_runtime rt)) ! unat b = 1"
    "qubits (memory (r_runtime rt)) ! unat r = 0 \<or> qubits (memory (r_runtime rt)) ! unat r = 1"
    using bits by (auto simp: d_qubits_def)
  have rg': "unat a < length (qubits (memory (r_runtime rt)))"
    "unat b < length (qubits (memory (r_runtime rt)))"
    "unat r < length (qubits (memory (r_runtime rt)))"
    using rg by (simp_all add: d_qubits_def)
  show "fst (d_execute_AND rt a b r)"
    using rg' by (simp add: d_execute_AND_def r_execute_CCNOT_def r_execute_NOT_def
        qubit_count_def Let_def split_beta)
  show "fst (d_execute_XOR rt a b r)"
    by (simp add: d_execute_XOR_def Let_def)
  show "fst (d_execute_NAND rt a b r)"
    by (simp add: d_execute_NAND_def Let_def)
  show "d_qubits (snd (d_execute_AND rt a b r)) ! unat r
          = (d_qubits rt ! unat a) AND (d_qubits rt ! unat b)"
    using b by (elim disjE) (simp_all add: d_gate_defs d_qubits_def prim_qubits Let_def split_beta rg' n)
  show "d_qubits (snd (d_execute_XOR rt a b r)) ! unat r
          = (d_qubits rt ! unat a) XOR (d_qubits rt ! unat b)"
    using b by (elim disjE) (simp_all add: d_gate_defs d_qubits_def prim_qubits Let_def split_beta rg' n)
  show "d_qubits (snd (d_execute_NAND rt a b r)) ! unat r
          = ((d_qubits rt ! unat a) AND (d_qubits rt ! unat b)) XOR 1"
    using b by (elim disjE) (simp_all add: d_gate_defs d_qubits_def prim_qubits Let_def split_beta rg' n)
qed

text \<open>The gates built on two ancilla bits.\<close>

lemma OR_NOR_truth_table:
  assumes al: "ancillas_allocated rt" and ac: "2 \<le> ancilla_count rt"
    and na: "\<not> is_ancilla rt a" "\<not> is_ancilla rt b" "\<not> is_ancilla rt r"
    and rg: "unat a < length (d_qubits rt)" "unat b < length (d_qubits rt)"
      "unat r < length (d_qubits rt)"
    and bits: "d_qubits rt ! unat a \<in> {0, 1}" "d_qubits rt ! unat b \<in> {0, 1}"
      "d_qubits rt ! unat r \<in> {0, 1}"
  shows "fst (d_execute_OR rt a b r)"
    and "d_qubits (snd (d_execute_OR rt a b r)) ! unat r
          = (d_qubits rt ! unat a) OR (d_qubits rt ! unat b)"
    and "fst (d_execute_NOR rt a b r)"
    and "d_qubits (snd (d_execute_NOR rt a b r)) ! unat r
          = ((d_qubits rt ! unat a) OR (d_qubits rt ! unat b)) XOR 1"
proof -
  note s = ancilla_succ [OF al ac]
  note n = not_ancilla [OF ac na(1)] not_ancilla [OF ac na(2)] not_ancilla [OF ac na(3)]
  have lt: "\<not> ancilla_count rt < 2"
    using ac by simp
  have b: "qubits (memory (r_runtime rt)) ! unat a = 0 \<or> qubits (memory (r_runtime rt)) ! unat a = 1"
    "qubits (memory (r_runtime rt)) ! unat b = 0 \<or> qubits (memory (r_runtime rt)) ! unat b = 1"
    "qubits (memory (r_runtime rt)) ! unat r = 0 \<or> qubits (memory (r_runtime rt)) ! unat r = 1"
    using bits by (auto simp: d_qubits_def)
  have rg': "unat a < length (qubits (memory (r_runtime rt)))"
    "unat b < length (qubits (memory (r_runtime rt)))"
    "unat r < length (qubits (memory (r_runtime rt)))"
    using rg by (simp_all add: d_qubits_def)
  show "fst (d_execute_OR rt a b r)"
    by (simp add: d_execute_OR_def lt Let_def)
  show "fst (d_execute_NOR rt a b r)"
    by (simp add: d_execute_NOR_def Let_def)
  show "d_qubits (snd (d_execute_OR rt a b r)) ! unat r
          = (d_qubits rt ! unat a) OR (d_qubits rt ! unat b)"
    using b by (elim disjE)
      (simp_all add: d_gate_defs d_qubits_def prim_qubits Let_def split_beta rg' n s lt)
  show "d_qubits (snd (d_execute_NOR rt a b r)) ! unat r
          = ((d_qubits rt ! unat a) OR (d_qubits rt ! unat b)) XOR 1"
    using b by (elim disjE)
      (simp_all add: d_gate_defs d_qubits_def prim_qubits Let_def split_beta rg' n s lt)
qed

text \<open>
  C3, as the code has it. Let \<open>a\<close>, \<open>b\<close> and \<open>result\<close> be in-range indices, \<open>result\<close> different
  from \<open>a\<close> and from \<open>b\<close>, and let the three bits hold 0 or 1. Then \<open>AND\<close>, \<open>XOR\<close> and
  \<open>NAND\<close> succeed and leave the truth-table value in the result bit. \<open>OR\<close> and \<open>NOR\<close> do so
  when the runtime has at least two allocated ancilla bits and none of the three indices is an
  ancilla index.
\<close>

theorem d_layer_truth_tables:
  assumes "unat a < length (d_qubits rt)" and "unat b < length (d_qubits rt)"
    and "unat r < length (d_qubits rt)"
    and "r \<noteq> a" and "r \<noteq> b"
    and "d_qubits rt ! unat a \<in> {0, 1}" and "d_qubits rt ! unat b \<in> {0, 1}"
    and "d_qubits rt ! unat r \<in> {0, 1}"
  shows "fst (d_execute_AND rt a b r)
       \<and> d_qubits (snd (d_execute_AND rt a b r)) ! unat r
            = (d_qubits rt ! unat a) AND (d_qubits rt ! unat b)
       \<and> fst (d_execute_XOR rt a b r)
       \<and> d_qubits (snd (d_execute_XOR rt a b r)) ! unat r
            = (d_qubits rt ! unat a) XOR (d_qubits rt ! unat b)
       \<and> fst (d_execute_NAND rt a b r)
       \<and> d_qubits (snd (d_execute_NAND rt a b r)) ! unat r
            = ((d_qubits rt ! unat a) AND (d_qubits rt ! unat b)) XOR 1
       \<and> (ancillas_allocated rt \<and> 2 \<le> ancilla_count rt
            \<and> \<not> is_ancilla rt a \<and> \<not> is_ancilla rt b \<and> \<not> is_ancilla rt r
          \<longrightarrow> fst (d_execute_OR rt a b r)
              \<and> d_qubits (snd (d_execute_OR rt a b r)) ! unat r
                   = (d_qubits rt ! unat a) OR (d_qubits rt ! unat b)
              \<and> fst (d_execute_NOR rt a b r)
              \<and> d_qubits (snd (d_execute_NOR rt a b r)) ! unat r
                   = ((d_qubits rt ! unat a) OR (d_qubits rt ! unat b)) XOR 1)"
  using AND_XOR_NAND_truth_table [OF assms] OR_NOR_truth_table [of rt a b r] assms
  by blast

lemma d_three_two_a_set_unfold:
  "d_three_two_a_set =
     \<lparr>r_runtime = \<lparr>memory = \<lparr>qubits = [1, 0, 0, 0, 0], cells = [], checkpoints = [],
                               execution_history = [], execution_count = 0\<rparr>,
                    next_cell_id = 0, instance_id = 0\<rparr>,
      ancilla_start = 3, ancilla_count = 2\<rparr>"
  by (simp add: d_three_two_a_set_def d_three_two_def d_runtime_init_def r_runtime_init_def
      r_write_qubit_def qubit_count_def set_qubits_def replicate_5)

theorem d_layer_truth_tables_witness:
  "unat (0 :: uint32_t) < length (d_qubits d_three_two_a_set)
   \<and> unat (1 :: uint32_t) < length (d_qubits d_three_two_a_set)
   \<and> unat (2 :: uint32_t) < length (d_qubits d_three_two_a_set)
   \<and> ancillas_allocated d_three_two_a_set \<and> 2 \<le> ancilla_count d_three_two_a_set
   \<and> \<not> is_ancilla d_three_two_a_set 0 \<and> \<not> is_ancilla d_three_two_a_set 1
   \<and> \<not> is_ancilla d_three_two_a_set 2
   \<and> d_qubits d_three_two_a_set = [1, 0, 0, 0, 0]
   \<and> d_qubits (snd (d_execute_AND d_three_two_a_set 0 1 2)) ! 2 = 0
   \<and> d_qubits (snd (d_execute_XOR d_three_two_a_set 0 1 2)) ! 2 = 1
   \<and> d_qubits (snd (d_execute_NAND d_three_two_a_set 0 1 2)) ! 2 = 1
   \<and> d_qubits (snd (d_execute_OR d_three_two_a_set 0 1 2)) ! 2 = 1
   \<and> d_qubits (snd (d_execute_NOR d_three_two_a_set 0 1 2)) ! 2 = 0"
proof -
  have q: "d_qubits d_three_two_a_set = [1, 0, 0, 0, 0]"
    by (simp add: d_qubits_def d_three_two_a_set_unfold)
  have h: "unat (0 :: uint32_t) < length (d_qubits d_three_two_a_set)"
    "unat (1 :: uint32_t) < length (d_qubits d_three_two_a_set)"
    "unat (2 :: uint32_t) < length (d_qubits d_three_two_a_set)"
    "(2 :: uint32_t) \<noteq> 0" "(2 :: uint32_t) \<noteq> 1"
    "d_qubits d_three_two_a_set ! unat (0 :: uint32_t) \<in> {0, 1}"
    "d_qubits d_three_two_a_set ! unat (1 :: uint32_t) \<in> {0, 1}"
    "d_qubits d_three_two_a_set ! unat (2 :: uint32_t) \<in> {0, 1}"
    by (simp_all add: q)
  have a: "ancillas_allocated d_three_two_a_set" "2 \<le> ancilla_count d_three_two_a_set"
    "\<not> is_ancilla d_three_two_a_set 0" "\<not> is_ancilla d_three_two_a_set 1"
    "\<not> is_ancilla d_three_two_a_set 2"
    by (simp_all add: ancillas_allocated_def is_ancilla_def qubit_count_def
        d_three_two_a_set_unfold)
  show ?thesis
    using h(1-3) a q d_layer_truth_tables [OF h] by simp
qed

lemma d_three_none_a_set_unfold:
  "d_three_none_a_set =
     \<lparr>r_runtime = \<lparr>memory = \<lparr>qubits = [1, 0, 0], cells = [], checkpoints = [],
                               execution_history = [], execution_count = 0\<rparr>,
                    next_cell_id = 0, instance_id = 0\<rparr>,
      ancilla_start = 3, ancilla_count = 0\<rparr>"
  by (simp add: d_three_none_a_set_def d_runtime_init_def r_runtime_init_def
      r_write_qubit_def qubit_count_def set_qubits_def replicate_3)

text \<open>
  C3 as stated fails for \<open>OR\<close>. With bits \<open>a = 1\<close>, \<open>b = 0\<close> at indices 0 and 1 and result
  index 2: on a runtime without ancilla bits \<open>OR\<close> returns \<open>false\<close> and the result bit stays
  0, and on a runtime with two ancilla bits (indices 3 and 4) \<open>OR\<close> into the ancilla index 3
  leaves 1 there whatever the inputs are (here \<open>a = b = 0\<close> at indices 1 and 2).
\<close>

theorem d_layer_or_truth_table_counterexample:
  "d_qubits d_three_none_a_set = [1, 0, 0]
   \<and> \<not> fst (d_execute_OR d_three_none_a_set 0 1 2)
   \<and> d_qubits (snd (d_execute_OR d_three_none_a_set 0 1 2)) ! 2 = 0
   \<and> d_qubits d_three_two_a_set = [1, 0, 0, 0, 0]
   \<and> fst (d_execute_OR d_three_two_a_set 1 2 3)
   \<and> d_qubits (snd (d_execute_OR d_three_two_a_set 1 2 3)) ! 3 = 1"
proof -
  have "d_execute_OR d_three_none_a_set 0 1 2 = (False, d_three_none_a_set)"
    by (simp add: d_execute_OR_def d_three_none_a_set_unfold)
  moreover have "d_qubits d_three_none_a_set = [1, 0, 0]"
    by (simp add: d_qubits_def d_three_none_a_set_unfold)
  moreover have "d_qubits d_three_two_a_set = [1, 0, 0, 0, 0]"
    by (simp add: d_qubits_def d_three_two_a_set_unfold)
  moreover have "fst (d_execute_OR d_three_two_a_set 1 2 3)"
    by (simp add: d_execute_OR_def Let_def d_three_two_a_set_unfold)
  moreover have "d_qubits (snd (d_execute_OR d_three_two_a_set 1 2 3)) = [1, 0, 0, 1, 1]"
    by (simp add: d_gate_defs d_qubits_def prim_qubits Let_def split_beta
        d_three_two_a_set_unfold)
  ultimately show ?thesis by simp
qed

text \<open>
  C4, as the code has it. On a runtime with at least two allocated ancilla bits and operand
  indices that are not ancilla indices, \<open>OR\<close> returns \<open>true\<close>, keeps the length of the bit
  array, leaves the complements of the (masked) bits \<open>a\<close> and \<open>b\<close> in the two ancilla bits,
  and changes no bit other than the result bit and the two ancilla bits.
\<close>

theorem or_overwrites_ancillas:
  assumes al: "ancillas_allocated rt" and ac: "2 \<le> ancilla_count rt"
    and na: "\<not> is_ancilla rt a" "\<not> is_ancilla rt b" "\<not> is_ancilla rt r"
  shows "fst (d_execute_OR rt a b r)
       \<and> length (d_qubits (snd (d_execute_OR rt a b r))) = length (d_qubits rt)
       \<and> d_qubits (snd (d_execute_OR rt a b r)) ! unat (ancilla_start rt)
            = (r_read_qubit (r_runtime rt) a AND 1) XOR 1
       \<and> d_qubits (snd (d_execute_OR rt a b r)) ! unat (ancilla_start rt + 1)
            = (r_read_qubit (r_runtime rt) b AND 1) XOR 1
       \<and> (\<forall>i < length (d_qubits rt).
            i \<noteq> unat r \<and> i \<noteq> unat (ancilla_start rt) \<and> i \<noteq> unat (ancilla_start rt + 1)
            \<longrightarrow> d_qubits (snd (d_execute_OR rt a b r)) ! i = d_qubits rt ! i)"
proof -
  note s = ancilla_succ [OF al ac]
  note n = not_ancilla [OF ac na(1)] not_ancilla [OF ac na(2)] not_ancilla [OF ac na(3)]
  have lt: "\<not> ancilla_count rt < 2"
    using ac by simp
  have 1: "fst (d_execute_OR rt a b r)"
    by (simp add: d_execute_OR_def lt Let_def)
  have 2: "length (d_qubits (snd (d_execute_OR rt a b r))) = length (d_qubits rt)"
    by (simp add: d_gate_defs d_qubits_def prim_qubits Let_def split_beta n s lt)
  have 3: "d_qubits (snd (d_execute_OR rt a b r)) ! unat (ancilla_start rt)
            = (r_read_qubit (r_runtime rt) a AND 1) XOR 1"
    by (simp add: d_gate_defs d_qubits_def prim_qubits Let_def split_beta n s lt)
  have 4: "d_qubits (snd (d_execute_OR rt a b r)) ! unat (ancilla_start rt + 1)
            = (r_read_qubit (r_runtime rt) b AND 1) XOR 1"
    by (simp add: d_gate_defs d_qubits_def prim_qubits Let_def split_beta n s lt)
  have 5: "\<forall>i < length (d_qubits rt).
            i \<noteq> unat r \<and> i \<noteq> unat (ancilla_start rt) \<and> i \<noteq> unat (ancilla_start rt + 1)
            \<longrightarrow> d_qubits (snd (d_execute_OR rt a b r)) ! i = d_qubits rt ! i"
    by (simp add: d_gate_defs d_qubits_def prim_qubits Let_def split_beta n s lt)
  from 1 2 3 4 5 show ?thesis by blast
qed

lemma d_three_two_unfold:
  "d_three_two =
     \<lparr>r_runtime = \<lparr>memory = \<lparr>qubits = [0, 0, 0, 0, 0], cells = [], checkpoints = [],
                               execution_history = [], execution_count = 0\<rparr>,
                    next_cell_id = 0, instance_id = 0\<rparr>,
      ancilla_start = 3, ancilla_count = 2\<rparr>"
  by (simp add: d_three_two_def d_runtime_init_def r_runtime_init_def replicate_5)

theorem or_overwrites_ancillas_witness:
  "ancillas_allocated d_three_two \<and> 2 \<le> ancilla_count d_three_two
   \<and> \<not> is_ancilla d_three_two 0 \<and> \<not> is_ancilla d_three_two 1 \<and> \<not> is_ancilla d_three_two 2
   \<and> fst (d_execute_OR d_three_two 0 1 2)
   \<and> d_qubits (snd (d_execute_OR d_three_two 0 1 2)) ! 3 = 1
   \<and> d_qubits (snd (d_execute_OR d_three_two 0 1 2)) ! 4 = 1
   \<and> d_qubits (snd (d_execute_OR d_three_two 0 1 2)) ! 0 = 0
   \<and> d_qubits (snd (d_execute_OR d_three_two 0 1 2)) ! 1 = 0"
proof -
  have a: "ancillas_allocated d_three_two" "2 \<le> ancilla_count d_three_two"
    "\<not> is_ancilla d_three_two 0" "\<not> is_ancilla d_three_two 1" "\<not> is_ancilla d_three_two 2"
    by (simp_all add: ancillas_allocated_def is_ancilla_def qubit_count_def d_three_two_unfold)
  have q: "d_qubits d_three_two = [0, 0, 0, 0, 0]" "ancilla_start d_three_two = 3"
    "r_read_qubit (r_runtime d_three_two) 0 = 0" "r_read_qubit (r_runtime d_three_two) 1 = 0"
    by (simp_all add: d_qubits_def d_three_two_unfold r_read_qubit_def qubit_count_def)
  have "d_qubits (snd (d_execute_OR d_three_two 0 1 2)) ! 0 = d_qubits d_three_two ! 0"
    "d_qubits (snd (d_execute_OR d_three_two 0 1 2)) ! 1 = d_qubits d_three_two ! 1"
    using or_overwrites_ancillas [OF a] by (simp_all add: q)
  then show ?thesis
    using a or_overwrites_ancillas [OF a] by (simp add: q)
qed

text \<open>
  C4 as stated fails: \<open>OR\<close> never restores the ancilla bits. On five clear bits (three data
  bits, ancilla bits 3 and 4) \<open>OR(0, 1, 2)\<close> leaves both ancilla bits set, while the result
  bit is the one that did not change.
\<close>

theorem or_ancillas_not_restored_counterexample:
  "2 \<le> ancilla_count d_three_two
   \<and> d_qubits d_three_two = [0, 0, 0, 0, 0]
   \<and> fst (d_execute_OR d_three_two 0 1 2)
   \<and> d_qubits (snd (d_execute_OR d_three_two 0 1 2)) = [0, 0, 0, 1, 1]"
proof -
  have "d_qubits (snd (d_execute_OR d_three_two 0 1 2)) = [0, 0, 0, 1, 1]"
    by (simp add: d_gate_defs d_qubits_def prim_qubits Let_def split_beta d_three_two_unfold)
  moreover have "fst (d_execute_OR d_three_two 0 1 2)"
    by (simp add: d_execute_OR_def Let_def d_three_two_unfold)
  moreover have "d_qubits d_three_two = [0, 0, 0, 0, 0]" "2 \<le> ancilla_count d_three_two"
    by (simp_all add: d_qubits_def d_three_two_unfold)
  ultimately show ?thesis by simp
qed


section \<open>Properties of the consistency checker\<close>

text \<open>
  C7, as the code has it. Let cell \<open>i\<close> be irreversible and let an expected effect remain.
  If the operation names match and the outcome of the step differs from the declared
  \<open>should_succeed\<close>, the loop stops at this cell: it reports
  \<open>D-term side effect mismatch\<close>, marks the result inconsistent and has counted exactly one
  more operation, so no later cell is checked. If the operation names differ, the loop body
  does not stop: it prints the warning, consumes the expected effect, leaves the result
  otherwise as it was and goes on with cell \<open>i + 1\<close>.
\<close>

theorem d_term_outcome_mismatch_aborts:
  assumes "i < n"
    and "hr_ir_get_cell (program (cs_runtime st)) i = Some cell"
    and "\<not> l1_is_reversible cell"
    and "cs_effect_index st < length expected_effects"
  shows "(l1_opcode cell = operation (expected_effects ! cs_effect_index st)
          \<and> fst (hr_ir_step (cs_runtime st))
               \<noteq> should_succeed (expected_effects ! cs_effect_index st)
          \<longrightarrow> fst (check_cell expected_effects i st)
              \<and> check_loop expected_effects n i st = snd (check_cell expected_effects i st)
              \<and> \<not> is_consistent (cs_result (check_loop expected_effects n i st))
              \<and> error_message (cs_result (check_loop expected_effects n i st))
                   = Some ''D-term side effect mismatch''
              \<and> operations_checked (cs_result (check_loop expected_effects n i st))
                   = operations_checked (cs_result st) + 1)
       \<and> (l1_opcode cell \<noteq> operation (expected_effects ! cs_effect_index st)
          \<longrightarrow> \<not> fst (check_cell expected_effects i st)
              \<and> check_loop expected_effects n i st
                   = check_loop expected_effects n (i + 1) (snd (check_cell expected_effects i st))
              \<and> cs_result (snd (check_cell expected_effects i st))
                   = (cs_result st)\<lparr>operations_checked := operations_checked (cs_result st) + 1\<rparr>
              \<and> cs_effect_index (snd (check_cell expected_effects i st)) = cs_effect_index st + 1
              \<and> cs_printed (snd (check_cell expected_effects i st))
                   = cs_printed st @ [D_term_no_matching_effect (l1_opcode cell)])"
proof (intro conjI impI)
  assume m: "l1_opcode cell = operation (expected_effects ! cs_effect_index st)
          \<and> fst (hr_ir_step (cs_runtime st))
               \<noteq> should_succeed (expected_effects ! cs_effect_index st)"
  have c: "check_cell expected_effects i st =
      (True, fail_with ''D-term side effect mismatch''
         (st\<lparr>cs_runtime := snd (hr_ir_step (cs_runtime st)),
             cs_result := (cs_result st)\<lparr>
               operations_checked := operations_checked (cs_result st) + 1,
               side_effects_verified := side_effects_verified (cs_result st) + 1\<rparr>,
             cs_printed := cs_printed st @ [D_term_verified (l1_opcode cell)]\<rparr>))"
    using assms m by (simp add: check_cell_def Let_def split_beta)
  show "fst (check_cell expected_effects i st)"
    by (simp add: c)
  show l: "check_loop expected_effects n i st = snd (check_cell expected_effects i st)"
    using assms(1) by (subst check_loop.simps) (simp add: c)
  show "\<not> is_consistent (cs_result (check_loop expected_effects n i st))"
    unfolding l by (simp add: c fail_with_def)
  show "error_message (cs_result (check_loop expected_effects n i st))
          = Some ''D-term side effect mismatch''"
    unfolding l by (simp add: c fail_with_def)
  show "operations_checked (cs_result (check_loop expected_effects n i st))
          = operations_checked (cs_result st) + 1"
    unfolding l by (simp add: c fail_with_def)
next
  assume m: "l1_opcode cell \<noteq> operation (expected_effects ! cs_effect_index st)"
  have c: "check_cell expected_effects i st =
      (False,
         st\<lparr>cs_runtime := snd (hr_ir_step (cs_runtime st)),
            cs_result := (cs_result st)\<lparr>
               operations_checked := operations_checked (cs_result st) + 1\<rparr>,
            cs_printed := cs_printed st @ [D_term_no_matching_effect (l1_opcode cell)],
            cs_effect_index := cs_effect_index st + 1\<rparr>)"
    using assms m by (simp add: check_cell_def Let_def split_beta)
  show "\<not> fst (check_cell expected_effects i st)"
    by (simp add: c)
  show "check_loop expected_effects n i st
          = check_loop expected_effects n (i + 1) (snd (check_cell expected_effects i st))"
    using assms(1) by (subst check_loop.simps) (simp add: c)
  show "cs_result (snd (check_cell expected_effects i st))
          = (cs_result st)\<lparr>operations_checked := operations_checked (cs_result st) + 1\<rparr>"
    by (simp add: c)
  show "cs_effect_index (snd (check_cell expected_effects i st)) = cs_effect_index st + 1"
    by (simp add: c)
  show "cs_printed (snd (check_cell expected_effects i st))
          = cs_printed st @ [D_term_no_matching_effect (l1_opcode cell)]"
    by (simp add: c)
qed

lemma print_log_program_unfold:
  "print_log_program =
     \<lparr>program_cells =
        [HRIR_Cell_L1 1 ''print'' [''done''] None False None 0 None False None,
         HRIR_Cell_L1 2 ''log'' [''x''] None False None 0 None False None],
      pc = 0, source_name = Some ''demo'', next_id = 3\<rparr>"
  by (simp add: print_log_program_def hr_ir_add_cell_def hr_ir_create_program_def
      hr_ir_from_d_term_operation_def hr_ir_create_cell_def Let_def)

text \<open>The loop state in which \<open>check_l1_l0_consistency\<close> enters its loop.\<close>

lemma check_initial_state:
  "check_l1_l0_consistency (Some prog) (Some effects) =
     (let st = check_loop effects (length (program_cells prog)) 0
                 \<lparr>cs_runtime = hr_ir_create_runtime prog,
                  cs_result = \<lparr>is_consistent = True, error_message = None,
                                operations_checked = 0, side_effects_verified = 0\<rparr>,
                  cs_effect_index = 0, cs_printed = []\<rparr>
      in ((if is_consistent (cs_result st) \<and> \<not> hr_ir_is_complete (cs_runtime st)
           then (cs_result st)\<lparr>is_consistent := False,
                  error_message := Some ''Program did not complete''\<rparr>
           else cs_result st),
          cs_printed st, Some (program (cs_runtime st))))"
  by (simp add: check_l1_l0_consistency_def Let_def)

theorem d_term_outcome_mismatch_aborts_witness:
  "\<not> is_consistent (fst (check_l1_l0_consistency (Some print_log_program) (Some print_fails_effects)))
   \<and> error_message (fst (check_l1_l0_consistency (Some print_log_program) (Some print_fails_effects)))
        = Some ''D-term side effect mismatch''
   \<and> operations_checked (fst (check_l1_l0_consistency (Some print_log_program) (Some print_fails_effects)))
        = 1"
proof -
  define st where "st = \<lparr>cs_runtime = hr_ir_create_runtime print_log_program,
                  cs_result = \<lparr>is_consistent = True, error_message = None,
                                operations_checked = 0, side_effects_verified = 0\<rparr>,
                  cs_effect_index = 0, cs_printed = []\<rparr>"
  define cell where "cell = HRIR_Cell_L1 1 ''print'' [''done''] None False None 0 None False None"
  have h: "0 < (2 :: nat)"
    "hr_ir_get_cell (program (cs_runtime st)) 0 = Some cell"
    "\<not> l1_is_reversible cell"
    "cs_effect_index st < length print_fails_effects"
    by (simp_all add: st_def cell_def hr_ir_get_cell_def hr_ir_create_runtime_def
        print_log_program_unfold print_fails_effects_def)
  have m: "l1_opcode cell = operation (print_fails_effects ! cs_effect_index st)
          \<and> fst (hr_ir_step (cs_runtime st))
               \<noteq> should_succeed (print_fails_effects ! cs_effect_index st)"
    by (simp add: st_def cell_def hr_ir_step_def hr_ir_create_runtime_def
        print_log_program_unfold print_fails_effects_def Let_def)
  note t = d_term_outcome_mismatch_aborts [OF h, THEN conjunct1, THEN mp, OF m]
  have r: "\<not> is_consistent (cs_result (check_loop print_fails_effects 2 0 st))"
    "error_message (cs_result (check_loop print_fails_effects 2 0 st))
           = Some ''D-term side effect mismatch''"
    "operations_checked (cs_result (check_loop print_fails_effects 2 0 st)) = 1"
  proof -
    show "\<not> is_consistent (cs_result (check_loop print_fails_effects 2 0 st))"
      using t by blast
    show "error_message (cs_result (check_loop print_fails_effects 2 0 st))
           = Some ''D-term side effect mismatch''"
      using t by blast
    have "operations_checked (cs_result (check_loop print_fails_effects 2 0 st))
            = operations_checked (cs_result st) + 1"
      using t by blast
    moreover have "operations_checked (cs_result st) = 0"
      by (simp add: st_def)
    ultimately show "operations_checked (cs_result (check_loop print_fails_effects 2 0 st)) = 1"
      by simp
  qed
  have n: "length (program_cells print_log_program) = 2"
    by (simp add: print_log_program_unfold)
  show ?thesis
    unfolding check_initial_state Let_def st_def [symmetric] n
    using r by simp
qed

text \<open>
  C7 as stated fails for a wrong operation. The first cell of the program is \<open>print\<close> and the
  first expected effect is \<open>write\<close>: the check prints its warning and goes on, verifies the
  second cell against the second effect, checks both cells and reports the program
  consistent.
\<close>

theorem wrong_operation_does_not_abort_counterexample:
  "l1_opcode (program_cells print_log_program ! 0) = ''print''
   \<and> operation (write_log_effects ! 0) = ''write''
   \<and> fst (check_l1_l0_consistency (Some print_log_program) (Some write_log_effects))
        = \<lparr>is_consistent = True, error_message = None, operations_checked = 2,
           side_effects_verified = 1\<rparr>
   \<and> fst (snd (check_l1_l0_consistency (Some print_log_program) (Some write_log_effects)))
        = [D_term_no_matching_effect ''print'', D_term_verified ''log'']"
proof -
  define st0 where "st0 = \<lparr>cs_runtime = hr_ir_create_runtime print_log_program,
                  cs_result = \<lparr>is_consistent = True, error_message = None,
                                operations_checked = 0, side_effects_verified = 0\<rparr>,
                  cs_effect_index = 0, cs_printed = []\<rparr>"
  define st1 where "st1 =
    \<lparr>cs_runtime =
       \<lparr>program =
          \<lparr>program_cells =
             [HRIR_Cell_L1 1 ''print'' [''done''] None False None 0 None True (Some ''executed''),
              HRIR_Cell_L1 2 ''log'' [''x''] None False None 0 None False None],
           pc = 1, source_name = Some ''demo'', next_id = 3\<rparr>,
        checkpoint = 0, steps_executed = 1, rollbacks = 0\<rparr>,
     cs_result = \<lparr>is_consistent = True, error_message = None,
                   operations_checked = 1, side_effects_verified = 0\<rparr>,
     cs_effect_index = 1, cs_printed = [D_term_no_matching_effect ''print'']\<rparr>"
  define st2 where "st2 =
    \<lparr>cs_runtime =
       \<lparr>program =
          \<lparr>program_cells =
             [HRIR_Cell_L1 1 ''print'' [''done''] None False None 0 None True (Some ''executed''),
              HRIR_Cell_L1 2 ''log'' [''x''] None False None 0 None True (Some ''executed'')],
           pc = 2, source_name = Some ''demo'', next_id = 3\<rparr>,
        checkpoint = 0, steps_executed = 2, rollbacks = 0\<rparr>,
     cs_result = \<lparr>is_consistent = True, error_message = None,
                   operations_checked = 2, side_effects_verified = 1\<rparr>,
     cs_effect_index = 2,
     cs_printed = [D_term_no_matching_effect ''print'', D_term_verified ''log'']\<rparr>"
  have c0: "check_cell write_log_effects 0 st0 = (False, st1)"
    by (simp add: st0_def st1_def check_cell_def hr_ir_get_cell_def hr_ir_step_def
        hr_ir_create_runtime_def print_log_program_unfold write_log_effects_def Let_def)
  have c1: "check_cell write_log_effects (Suc 0) st1 = (False, st2)"
    by (simp add: st1_def st2_def check_cell_def hr_ir_get_cell_def hr_ir_step_def
        write_log_effects_def Let_def)
  have "check_loop write_log_effects 2 (Suc (Suc 0)) st2 = st2"
    by (subst check_loop.simps) simp
  then have "check_loop write_log_effects 2 (Suc 0) st1 = st2"
    by (subst check_loop.simps) (simp add: c1)
  then have l: "check_loop write_log_effects 2 0 st0 = st2"
    by (subst check_loop.simps) (simp add: c0)
  have n: "length (program_cells print_log_program) = 2"
    by (simp add: print_log_program_unfold)
  have r: "fst (check_l1_l0_consistency (Some print_log_program) (Some write_log_effects))
        = \<lparr>is_consistent = True, error_message = None, operations_checked = 2,
           side_effects_verified = 1\<rparr>"
    "fst (snd (check_l1_l0_consistency (Some print_log_program) (Some write_log_effects)))
        = [D_term_no_matching_effect ''print'', D_term_verified ''log'']"
    unfolding check_initial_state Let_def st0_def [symmetric] n l
    by (simp_all add: st2_def hr_ir_is_complete_def)
  show ?thesis
    using r by (simp add: print_log_program_unfold write_log_effects_def)
qed


section \<open>Properties of the handler interpreter\<close>

lemma atof_words: "atof ''abc'' = Finite 0" "atof ''def'' = Finite 0"
  by (simp_all add: atof_def atof_unsigned_def float_constant_def isspace_def isdigit_def
      tolower_def isupper_def)

lemma words_ctx_values:
  "l3_evaluate_expression sh ''state.a'' words_ctx = Some ''abc''"
  "l3_evaluate_expression sh ''state.b'' words_ctx = Some ''def''"
  by (simp_all add: l3_evaluate_expression_def l3_trim_def isspace_def starts_with_quote_def
      is_quote_def double_quote_def single_quote_def l3_is_number_def isdigit_def strpbrk_def
      lookup_expression_def l3_starts_with_def words_ctx_def Let_def)

text \<open>
  C9 is not what the code does. With the state fields \<open>a = abc\<close> and \<open>b = def\<close>, neither
  of them a number, the condition \<open>state.a == state.b\<close> is true and \<open>state.a != state.b\<close>
  is false: \<open>atof\<close> turns both words into 0, the numeric comparison \<open>0 == 0\<close> decides, and
  the string comparison next to it cannot change the outcome.
\<close>

theorem equality_of_words_compares_zeros:
  "l3_evaluate_expression sh ''state.a'' words_ctx = Some ''abc''
   \<and> l3_evaluate_expression sh ''state.b'' words_ctx = Some ''def''
   \<and> \<not> l3_is_number ''abc'' \<and> \<not> l3_is_number ''def''
   \<and> l3_evaluate_condition sh ''state.a == state.b'' words_ctx = Some True
   \<and> l3_evaluate_condition sh ''state.a != state.b'' words_ctx = Some False"
proof -
  have t: "l3_trim ''state.a == state.b'' = ''state.a == state.b''"
    "l3_trim ''state.a != state.b'' = ''state.a != state.b''"
    "l3_trim ''state.a '' = ''state.a''" "l3_trim '' state.b'' = ''state.b''"
    by (simp_all add: l3_trim_def isspace_def)
  have f: "find_operator operators ''state.a == state.b'' = Some (''=='', 8)"
    "find_operator operators ''state.a != state.b'' = Some (''!='', 8)"
    by (simp_all add: operators_def)
  have e: "l3_evaluate_condition sh ''state.a == state.b'' words_ctx = Some True"
    by (simp add: l3_evaluate_condition_def t f l3_substring_def words_ctx_values
        compare_values_def atof_words double_eq_def Let_def)
  have n: "l3_evaluate_condition sh ''state.a != state.b'' words_ctx = Some False"
    by (simp add: l3_evaluate_condition_def t f l3_substring_def words_ctx_values
        compare_values_def atof_words double_eq_def Let_def)
  have "\<not> l3_is_number ''abc''" "\<not> l3_is_number ''def''"
    by (simp_all add: l3_is_number_def isdigit_def)
  then show ?thesis
    using e n words_ctx_values by simp
qed

text \<open>
  In general the string comparison never decides \<open>==\<close> or \<open>!=\<close> between two operands that
  \<open>atof\<close> reads as the same number: words without a leading number all read as 0.
\<close>

lemma equal_atof_decides:
  assumes "atof left_val = atof right_val" and "atof left_val \<noteq> NaN"
  shows "compare_values ''=='' left_val right_val"
    and "\<not> compare_values ''!='' left_val right_val"
  using assms by (simp_all add: compare_values_def double_eq_def Let_def)

subsection \<open>The iteration cap of \<open>while\<close>\<close>











lemma log_line: "l3_execute_line sh ''log tick'' c = Some c"
  by (simp add: l3_execute_line_def l3_starts_with_def)



subsection \<open>The mailbox is a first-in first-out queue\<close>

lemma ring_index_distinct:
  assumes "i < j" and "j < cap"
  shows "(h + i) mod cap \<noteq> (h + j) mod (cap :: nat)"
proof
  assume "(h + i) mod cap = (h + j) mod cap"
  then have "(h + j) mod cap = (h + i) mod cap" by simp
  then have "cap dvd (h + j) - (h + i)"
    using assms(1) by (simp add: mod_eq_dvd_iff_nat)
  then have "cap dvd j - i" by simp
  moreover have "0 < j - i" "j - i < cap"
    using assms by simp_all
  ultimately show False
    using nat_dvd_not_less by blast
qed

lemma queue_create_ok: "queue_ok l3_queue_create" "queue_contents l3_queue_create = []"
  by (simp_all add: queue_ok_def queue_contents_def queue_slots_def l3_queue_create_def)

lemma count_zero_iff_contents:
  "count queue = 0 \<longleftrightarrow> queue_contents queue = []"
  by (simp add: queue_contents_def queue_slots_def)

lemma queue_push_no_expand:
  assumes ok: "queue_ok queue" and room: "count queue < capacity queue"
  shows "queue_ok (snd (l3_queue_push queue ev d))"
    and "queue_contents (snd (l3_queue_push queue ev d))
           = queue_contents queue @ [new_message ev d]"
proof -
  let ?msg = "new_message ev d"
  let ?t = "(head queue + count queue) mod capacity queue"
  let ?q = "queue\<lparr>messages := (messages queue)[?t := Some ?msg],
                   tail := (?t + 1) mod capacity queue, count := count queue + 1\<rparr>"
  have cap: "0 < capacity queue" and len: "length (messages queue) = capacity queue"
    and tl: "tail queue = ?t" and nn: "None \<notin> set (queue_slots queue)"
    using ok by (simp_all add: queue_ok_def)
  have p: "snd (l3_queue_push queue ev d) = ?q"
    using room by (simp add: l3_queue_push_def Let_def new_message_def tl)
  have old: "(messages queue)[?t := Some ?msg] ! ((head queue + i) mod capacity queue)
               = messages queue ! ((head queue + i) mod capacity queue)"
    if "i < count queue" for i
    using ring_index_distinct [OF that room, of "head queue"] by simp
  have new: "(messages queue)[?t := Some ?msg] ! ?t = Some ?msg"
    using cap len by simp
  have s: "queue_slots ?q = queue_slots queue @ [Some ?msg]"
    by (simp add: queue_slots_def old new)
  show "queue_contents (snd (l3_queue_push queue ev d))
          = queue_contents queue @ [new_message ev d]"
    unfolding p queue_contents_def s by simp
  have "None \<notin> set (queue_slots ?q)"
    unfolding s using nn by simp
  moreover have "tail ?q = (head ?q + count ?q) mod capacity ?q"
    by (simp add: mod_simps)
  moreover have "0 < capacity ?q" "length (messages ?q) = capacity ?q"
    "head ?q < capacity ?q" "count ?q \<le> capacity ?q"
    using ok room by (simp_all add: queue_ok_def)
  ultimately show "queue_ok (snd (l3_queue_push queue ev d))"
    unfolding p queue_ok_def by blast
qed

lemma queue_expand:
  assumes ok: "queue_ok queue"
  shows "queue_ok (l3_queue_expand queue)"
    and "queue_contents (l3_queue_expand queue) = queue_contents queue"
    and "count (l3_queue_expand queue) = count queue"
    and "capacity (l3_queue_expand queue) = 2 * capacity queue"
proof -
  let ?e = "l3_queue_expand queue"
  have cap: "0 < capacity queue" and le: "count queue \<le> capacity queue"
    and nn: "None \<notin> set (queue_slots queue)"
    using ok by (simp_all add: queue_ok_def)
  have m: "messages ?e = queue_slots queue @ replicate (2 * capacity queue - count queue) None"
    and f: "count ?e = count queue" "capacity ?e = 2 * capacity queue" "head ?e = 0"
      "tail ?e = count queue"
    by (simp_all add: l3_queue_expand_def queue_slots_def Let_def mult.commute)
  have l: "length (queue_slots queue) = count queue"
    by (simp add: queue_slots_def)
  have i: "messages ?e ! (i mod capacity ?e) = queue_slots queue ! i" if "i < count queue" for i
    using that le l by (simp add: m f nth_append)
  have s: "queue_slots ?e = queue_slots queue"
  proof (rule nth_equalityI)
    show "length (queue_slots ?e) = length (queue_slots queue)"
      by (simp add: queue_slots_def f)
    fix i
    assume "i < length (queue_slots ?e)"
    then have "i < count queue"
      by (simp add: queue_slots_def f)
    then show "queue_slots ?e ! i = queue_slots queue ! i"
      using i [of i] by (simp add: queue_slots_def [of ?e] f)
  qed
  show "queue_contents ?e = queue_contents queue"
    by (simp add: queue_contents_def s)
  show "count ?e = count queue" "capacity ?e = 2 * capacity queue"
    by (rule f)+
  have "length (messages ?e) = capacity ?e"
    using le by (simp add: m f l)
  moreover have "tail ?e = (head ?e + count ?e) mod capacity ?e"
    using le cap by (simp add: f)
  moreover have "None \<notin> set (queue_slots ?e)"
    using nn by (simp add: s)
  ultimately show "queue_ok ?e"
    using cap le by (simp add: queue_ok_def f)
qed

lemma queue_push_split:
  assumes "queue_ok queue"
  shows "snd (l3_queue_push queue ev d) =
     snd (l3_queue_push
            (if capacity queue \<le> count queue then l3_queue_expand queue else queue) ev d)"
proof (cases "capacity queue \<le> count queue")
  case True
  have "count (l3_queue_expand queue) = count queue"
    "capacity (l3_queue_expand queue) = capacity queue * 2"
    by (simp_all add: l3_queue_expand_def Let_def)
  moreover have "0 < capacity queue" "count queue \<le> capacity queue"
    using assms by (simp_all add: queue_ok_def)
  ultimately have "\<not> capacity (l3_queue_expand queue) \<le> count (l3_queue_expand queue)"
    by simp
  then show ?thesis
    using True by (simp add: l3_queue_push_def [of queue] l3_queue_push_def [of "l3_queue_expand queue"] Let_def)
next
  case False
  then show ?thesis by simp
qed

text \<open>\<open>l3_queue_push\<close> appends at the end of the mailbox.\<close>

lemma queue_push:
  assumes "queue_ok queue"
  shows "queue_ok (snd (l3_queue_push queue ev d))"
    and "queue_contents (snd (l3_queue_push queue ev d))
           = queue_contents queue @ [new_message ev d]"
proof -
  let ?q = "if capacity queue \<le> count queue then l3_queue_expand queue else queue"
  have ok: "queue_ok ?q" and c: "queue_contents ?q = queue_contents queue"
    using assms queue_expand(1,2) [OF assms] by simp_all
  have room: "count ?q < capacity ?q"
  proof (cases "capacity queue \<le> count queue")
    case True
    moreover have "0 < capacity queue"
      using assms by (simp add: queue_ok_def)
    moreover have "count queue \<le> capacity queue"
      using assms by (simp add: queue_ok_def)
    ultimately show ?thesis
      using queue_expand(3,4) [OF assms] by simp
  next
    case False
    then show ?thesis by simp
  qed
  show "queue_ok (snd (l3_queue_push queue ev d))"
    using queue_push_no_expand(1) [OF ok room] queue_push_split [OF assms, of ev d] by simp
  show "queue_contents (snd (l3_queue_push queue ev d))
          = queue_contents queue @ [new_message ev d]"
    using queue_push_no_expand(2) [OF ok room, of ev d] queue_push_split [OF assms, of ev d] c
    by simp
qed

text \<open>\<open>l3_queue_pop\<close> takes the message at the front.\<close>

lemma queue_pop:
  assumes ok: "queue_ok queue" and c: "queue_contents queue = m # ms"
  shows "0 < count queue"
    and "fst (l3_queue_pop queue) = Some m"
    and "queue_ok (snd (l3_queue_pop queue))"
    and "queue_contents (snd (l3_queue_pop queue)) = ms"
proof -
  let ?q = "queue\<lparr>head := (head queue + 1) mod capacity queue, count := count queue - 1\<rparr>"
  have cap: "0 < capacity queue" and hd: "head queue < capacity queue"
    and le: "count queue \<le> capacity queue" and nn: "None \<notin> set (queue_slots queue)"
    and tl: "tail queue = (head queue + count queue) mod capacity queue"
    using ok by (simp_all add: queue_ok_def)
  show pos: "0 < count queue"
    using c count_zero_iff_contents [of queue] by auto
  then have p: "l3_queue_pop queue = (messages queue ! head queue, ?q)"
    by (simp add: l3_queue_pop_def)
  obtain n where n: "count queue = Suc n"
    using pos by (cases "count queue") simp_all
  have s: "queue_slots queue = messages queue ! head queue # queue_slots ?q"
    using hd by (simp add: queue_slots_def n map_upt_Suc mod_simps del: upt_Suc)
  have "messages queue ! head queue \<in> set (queue_slots queue)"
    by (subst s) simp
  then have "messages queue ! head queue \<noteq> None"
    using nn by metis
  then obtain m' where m': "messages queue ! head queue = Some m'"
    by (cases "messages queue ! head queue") simp_all
  have "m' = m" and ms: "map the (queue_slots ?q) = ms"
    using c s m' by (simp_all add: queue_contents_def)
  then show "fst (l3_queue_pop queue) = Some m"
    by (simp add: p m')
  show "queue_contents (snd (l3_queue_pop queue)) = ms"
    unfolding p snd_conv queue_contents_def by (rule ms)
  have "None \<notin> set (queue_slots ?q)"
    using nn s by auto
  moreover have "tail ?q = (head ?q + count ?q) mod capacity ?q"
    by (simp add: tl n mod_simps)
  moreover have "0 < capacity ?q" "length (messages ?q) = capacity ?q"
    "head ?q < capacity ?q" "count ?q \<le> capacity ?q"
    using cap le ok by (simp_all add: queue_ok_def)
  ultimately show "queue_ok (snd (l3_queue_pop queue))"
    unfolding p snd_conv queue_ok_def by blast
qed

subsection \<open>Handlers only append to mailboxes\<close>

lemma sends_only_refl: "sends_only runtime runtime"
  by (simp add: sends_only_def)

lemma sends_only_trans:
  assumes "sends_only a b" and "sends_only b c"
  shows "sends_only a c"
  unfolding sends_only_def
proof (intro conjI allI impI)
  show "actors c = actors a"
    using assms by (simp add: sends_only_def)
  show l: "length (message_queues c) = length (message_queues a)"
    using assms by (simp add: sends_only_def)
  fix j
  assume j: "j < length (message_queues a)" and ok: "queue_ok (message_queues a ! j)"
  have b: "queue_ok (message_queues b ! j)" "prefix (mailbox a j) (mailbox b j)"
    using assms(1) j ok by (simp_all add: sends_only_def)
  have jb: "j < length (message_queues b)"
    using assms(1) j by (simp add: sends_only_def)
  have c: "queue_ok (message_queues c ! j)" "prefix (mailbox b j) (mailbox c j)"
    using assms(2) jb b(1) by (simp_all add: sends_only_def)
  show "queue_ok (message_queues c ! j)"
    by (rule c(1))
  show "prefix (mailbox a j) (mailbox c j)"
    using b(2) c(2) by (rule prefix_order.trans)
qed

lemma ctx_sends_only_refl: "ctx_sends_only ctx ctx"
  by (simp add: ctx_sends_only_def sends_only_refl)

lemma ctx_sends_only_trans:
  "ctx_sends_only a b \<Longrightarrow> ctx_sends_only b c \<Longrightarrow> ctx_sends_only a c"
  unfolding ctx_sends_only_def by (rule sends_only_trans)

lemma send_message_sends_only:
  "sends_only runtime (snd (l3_send_message runtime aid ev d))"
proof (cases "find_actor_index (actors runtime) aid")
  case None
  then show ?thesis
    by (simp add: l3_send_message_def sends_only_refl)
next
  case (Some k)
  let ?q = "snd (l3_queue_push (message_queues runtime ! k) ev d)"
  have r: "snd (l3_send_message runtime aid ev d)
             = runtime\<lparr>message_queues := (message_queues runtime)[k := ?q]\<rparr>"
    by (simp add: l3_send_message_def Some split_beta Let_def)
  show ?thesis
    unfolding r sends_only_def
  proof (intro conjI allI impI)
    fix j
    assume j: "j < length (message_queues runtime)"
      and ok: "queue_ok (message_queues runtime ! j)"
    show "queue_ok
            (message_queues (runtime\<lparr>message_queues := (message_queues runtime)[k := ?q]\<rparr>) ! j)"
      using j ok queue_push(1) [of "message_queues runtime ! k" ev d]
      by (cases "j = k") simp_all
    show "prefix (mailbox runtime j)
            (mailbox (runtime\<lparr>message_queues := (message_queues runtime)[k := ?q]\<rparr>) j)"
      using j ok queue_push(2) [of "message_queues runtime ! k" ev d]
      by (cases "j = k") (simp_all add: mailbox_def)
  qed simp_all
qed

lemma execute_line_sends_only:
  assumes "l3_execute_line sh trimmed ctx = Some ctx'"
  shows "ctx_sends_only ctx ctx'"
proof -
  have s: "ctx_sends_only ctx (send_to_actor trimmed k ctx)" for k
    by (simp add: send_to_actor_def ctx_sends_only_def Let_def sends_only_refl
        send_message_sends_only)
  have l: "ctx_sends_only ctx (l3_set_local ctx k v)" for k v
    by (simp add: l3_set_local_def ctx_sends_only_def sends_only_refl)
  have t: "ctx_sends_only ctx (ctx\<lparr>ctx_state := st\<rparr>)" for st
    by (simp add: ctx_sends_only_def sends_only_refl)
  show ?thesis
    using assms s l t ctx_sends_only_refl [of ctx]
    by (auto simp add: l3_execute_line_def Let_def split: if_splits option.splits)
qed

lemma while_loop_sends_only:
  assumes "\<And>c c'. body c = Some c' \<Longrightarrow> ctx_sends_only c c'"
    and "l3_while_loop cond body iterations ctx = Some (k, ctx')"
  shows "ctx_sends_only ctx ctx'"
  using assms
proof (induction cond body iterations ctx rule: l3_while_loop.induct)
  case (1 cond body iterations ctx)
  note b = "1.prems"(1)
  note r = "1.prems"(2) [unfolded l3_while_loop.simps [of cond body iterations ctx]]
  show ?case
  proof (cases "cond ctx")
    case None
    with r show ?thesis by simp
  next
    case (Some holds)
    show ?thesis
    proof (cases "holds \<and> iterations < max_iterations")
      case False
      with r Some show ?thesis
        by (auto simp: ctx_sends_only_refl)
    next
      case True
      then obtain c1 where c1: "body ctx = Some c1"
        and l: "l3_while_loop cond body (iterations + 1) c1 = Some (k, ctx')"
        using r Some by (cases "body ctx") auto
      have "ctx_sends_only c1 ctx'"
        using "1.IH" [OF Some True c1 b l] .
      moreover have "ctx_sends_only ctx c1"
        using b c1 by blast
      ultimately show ?thesis
        using ctx_sends_only_trans by blast
    qed
  qed
qed

lemma for_loop_sends_only:
  assumes "\<And>c c'. body c = Some c' \<Longrightarrow> ctx_sends_only c c'"
    and "l3_for_loop var body i end_num ctx = Some ctx'"
  shows "ctx_sends_only ctx ctx'"
  using assms
proof (induction var body i end_num ctx rule: l3_for_loop.induct)
  case (1 var body i end_num ctx)
  note b = "1.prems"(1)
  note r = "1.prems"(2) [unfolded l3_for_loop.simps [of var body i end_num ctx]]
  show ?case
  proof (cases "i \<le> end_num")
    case False
    with r show ?thesis
      by (simp add: ctx_sends_only_refl)
  next
    case True
    then obtain c1 where c1: "body (l3_set_local ctx var (string_of_int i)) = Some c1"
      and l: "l3_for_loop var body (i + 1) end_num c1 = Some ctx'"
      using r by (cases "body (l3_set_local ctx var (string_of_int i))") auto
    have "ctx_sends_only c1 ctx'"
      using "1.IH" [OF True c1 b l] .
    moreover have "ctx_sends_only (l3_set_local ctx var (string_of_int i)) c1"
      using b c1 by blast
    moreover have "ctx_sends_only ctx (l3_set_local ctx var (string_of_int i))"
      by (simp add: l3_set_local_def ctx_sends_only_def sends_only_refl)
    ultimately show ?thesis
      using ctx_sends_only_trans by blast
  qed
qed

lemma block_body_fun:
  "(\<lambda>c. if indent \<noteq> - 1
        then map_option snd (l3_execute_block sh lines body_start body_end indent c)
        else Some c)
     = block_body sh lines body_start body_end indent"
  by (rule ext) (simp add: block_body_def)

lemma execute_block_sends_only:
  assumes "l3_execute_block sh lines line_idx line_count base_indent ctx = Some (idx', ctx')"
  shows "ctx_sends_only ctx ctx'"
  using assms
proof (induction "line_count - line_idx"
    arbitrary: line_idx line_count base_indent ctx idx' ctx' rule: less_induct)
  case less
  note IH = less.hyps
  let ?line = "lines ! line_idx"
  let ?t = "l3_trim (lines ! line_idx)"
  let ?end = "fst (collect_block lines (Suc line_idx) line_count (- 1))"
  let ?ind = "snd (collect_block lines (Suc line_idx) line_count (- 1))"
  show ?case
  proof (cases "line_idx < line_count")
    case False
    then have "ctx' = ctx"
      using less.prems by (subst (asm) l3_execute_block.simps) simp
    then show ?thesis
      by (simp add: ctx_sends_only_refl)
  next
    case lt: True
    have body: "ctx_sends_only c c'"
      if "block_body sh lines (Suc line_idx) ?end ?ind c = Some c'" for c c'
    proof (cases "?ind = - 1")
      case True
      with that show ?thesis
        by (simp add: block_body_def ctx_sends_only_refl)
    next
      case False
      with that obtain i where
        "l3_execute_block sh lines (Suc line_idx) ?end ?ind c = Some (i, c')"
        by (auto simp: block_body_def)
      then show ?thesis
        using IH [OF collect_block_body_measure [OF lt]] by blast
    qed
    have rest: "ctx_sends_only c c'"
      if "l3_execute_block sh lines ?end line_count base_indent c = Some (i, c')" for c c' i
      using IH [OF collect_block_rest_measure [OF lt] that] .
    have nxt: "ctx_sends_only c c'"
      if "l3_execute_block sh lines (Suc line_idx) line_count base_indent c = Some (i, c')"
      for c c' i
      using IH [of line_count "Suc line_idx" base_indent c i c'] lt that by simp
    note u = less.prems
      [unfolded l3_execute_block.simps [of sh lines line_idx line_count base_indent ctx]]
    consider
      (skip) "?t = [] \<or> l3_starts_with ?t ''//''"
      | (dedent) "\<not> (?t = [] \<or> l3_starts_with ?t ''//'')" "l3_get_indent ?line < base_indent"
      | (ifs) "\<not> (?t = [] \<or> l3_starts_with ?t ''//'')" "\<not> l3_get_indent ?line < base_indent"
          "l3_starts_with ?t ''if ''"
      | (whiles) "\<not> (?t = [] \<or> l3_starts_with ?t ''//'')"
          "\<not> l3_get_indent ?line < base_indent" "\<not> l3_starts_with ?t ''if ''"
          "l3_starts_with ?t ''while ''"
      | (fors) in_pos to_pos where "\<not> (?t = [] \<or> l3_starts_with ?t ''//'')"
          "\<not> l3_get_indent ?line < base_indent" "\<not> l3_starts_with ?t ''if ''"
          "\<not> l3_starts_with ?t ''while ''" "for_bounds ?t = Some (in_pos, to_pos)"
      | (plain) "\<not> (?t = [] \<or> l3_starts_with ?t ''//'')"
          "\<not> l3_get_indent ?line < base_indent" "\<not> l3_starts_with ?t ''if ''"
          "\<not> l3_starts_with ?t ''while ''" "for_bounds ?t = None"
      by (cases "for_bounds ?t") auto
    then show ?thesis
    proof cases
      case skip
      then have "l3_execute_block sh lines (Suc line_idx) line_count base_indent ctx
                   = Some (idx', ctx')"
        using u lt by (simp add: Let_def)
      then show ?thesis
        by (rule nxt)
    next
      case dedent
      then have "ctx' = ctx"
        using u lt by (simp add: Let_def)
      then show ?thesis
        by (simp add: ctx_sends_only_refl)
    next
      case ifs
      from u lt ifs obtain result ctx1 where
        c: "(if result \<and> ?ind \<noteq> - 1
             then map_option snd (l3_execute_block sh lines (Suc line_idx) ?end ?ind ctx)
             else Some ctx) = Some ctx1"
        and r: "l3_execute_block sh lines ?end line_count base_indent ctx1 = Some (idx', ctx')"
        by (auto simp add: Let_def split: option.splits)
      have "ctx_sends_only ctx ctx1"
      proof (cases "result \<and> ?ind \<noteq> - 1")
        case True
        with c have "block_body sh lines (Suc line_idx) ?end ?ind ctx = Some ctx1"
          by (simp add: block_body_def)
        then show ?thesis
          by (rule body)
      next
        case False
        with c show ?thesis
          by (auto simp: ctx_sends_only_refl)
      qed
      then show ?thesis
        using rest [OF r] ctx_sends_only_trans by blast
    next
      case whiles
      from u lt whiles obtain iterations ctx1 where
        w: "l3_while_loop (l3_evaluate_condition sh (l3_trim (drop 6 ?t)))
              (block_body sh lines (Suc line_idx) ?end ?ind) 0 ctx = Some (iterations, ctx1)"
        and r: "l3_execute_block sh lines ?end line_count base_indent ctx1 = Some (idx', ctx')"
        by (auto simp add: Let_def block_body_fun split: option.splits)
      have "ctx_sends_only ctx ctx1"
        using while_loop_sends_only [OF body w] .
      then show ?thesis
        using rest [OF r] ctx_sends_only_trans by blast
    next
      case fors
      from u lt fors obtain start_val end_val ctx1 where
        f: "l3_for_loop (l3_trim (l3_substring (drop 4 ?t) 0 in_pos))
              (block_body sh lines (Suc line_idx) ?end ?ind)
              (atoi start_val) (atoi end_val) ctx = Some ctx1"
        and r: "l3_execute_block sh lines ?end line_count base_indent ctx1 = Some (idx', ctx')"
        by (auto simp add: Let_def block_body_fun split: option.splits)
      have "ctx_sends_only ctx ctx1"
        using for_loop_sends_only [OF body f] .
      then show ?thesis
        using rest [OF r] ctx_sends_only_trans by blast
    next
      case plain
      from u lt plain obtain ctx1 where
        e: "(if base_indent \<le> l3_get_indent ?line then l3_execute_line sh ?t ctx else Some ctx)
              = Some ctx1"
        and r: "l3_execute_block sh lines (Suc line_idx) line_count base_indent ctx1
                  = Some (idx', ctx')"
        by (auto simp add: Let_def split: option.splits)
      have "ctx_sends_only ctx ctx1"
        using e execute_line_sends_only [of sh ?t ctx ctx1]
        by (auto simp: ctx_sends_only_refl split: if_splits)
      then show ?thesis
        using nxt [OF r] ctx_sends_only_trans by blast
    qed
  qed
qed

lemma execute_handler_sends_only:
  assumes "l3_execute_handler sh body ctx = Some ctx'"
  shows "sends_only (ctx_runtime ctx) (ctx_runtime ctx')"
  using assms execute_block_sends_only
  by (fastforce simp add: l3_execute_handler_def Let_def ctx_sends_only_def)

subsection \<open>The tick\<close>

lemma runtime_ok_nth:
  "runtime_ok runtime \<longleftrightarrow>
     length (message_queues runtime) = length (actors runtime)
     \<and> (\<forall>j < length (message_queues runtime). queue_ok (message_queues runtime ! j))"
  by (auto simp add: runtime_ok_def all_set_conv_all_nth)

lemma deliver_sends_only:
  assumes ok: "runtime_ok runtime" and d: "l3_deliver sh i msg runtime = Some runtime'"
  shows "runtime_ok runtime'"
    and "actor_count runtime' = actor_count runtime"
    and "\<forall>j < actor_count runtime. prefix (mailbox runtime j) (mailbox runtime' j)"
proof -
  have "\<exists>r. sends_only runtime r \<and> message_queues runtime' = message_queues r
            \<and> length (actors runtime') = length (actors r)"
  proof (cases "find_handler (handlers (actors runtime ! i)) (event msg)")
    case None
    with d have "runtime' = runtime"
      by (simp add: l3_deliver_def Let_def)
    then show ?thesis
      using sends_only_refl by blast
  next
    case (Some handler)
    with d obtain ctx' where
      h: "l3_execute_handler sh (body_code handler)
            \<lparr>ctx_state = state (actors runtime ! i), ctx_data = data msg,
             ctx_runtime = runtime, ctx_actor_id = actor_id (actors runtime ! i),
             locals = []\<rparr> = Some ctx'"
      and r: "runtime' = (ctx_runtime ctx')\<lparr>actors :=
                (actors (ctx_runtime ctx'))
                  [i := (actors (ctx_runtime ctx') ! i)\<lparr>state := ctx_state ctx'\<rparr>]\<rparr>"
      by (auto simp add: l3_deliver_def Let_def split: option.splits)
    have "sends_only runtime (ctx_runtime ctx')"
      using execute_handler_sends_only [OF h] by simp
    then show ?thesis
      using r by (intro exI [of _ "ctx_runtime ctx'"]) simp
  qed
  then obtain r where s: "sends_only runtime r"
    and q: "message_queues runtime' = message_queues r"
    and a: "length (actors runtime') = length (actors r)"
    by blast
  have l: "length (message_queues runtime) = length (actors runtime)"
    and oks: "\<forall>j < length (message_queues runtime). queue_ok (message_queues runtime ! j)"
    using ok by (simp_all add: runtime_ok_nth)
  show "actor_count runtime' = actor_count runtime"
    using s a by (simp add: actor_count_def sends_only_def)
  show "runtime_ok runtime'"
    unfolding runtime_ok_nth
    using s a l oks by (simp add: q sends_only_def)
  show "\<forall>j < actor_count runtime. prefix (mailbox runtime j) (mailbox runtime' j)"
    using s l oks by (simp add: q sends_only_def actor_count_def mailbox_def)
qed

lemma popped_runtime:
  assumes ok: "runtime_ok runtime" and i: "i < actor_count runtime"
    and c: "mailbox runtime i = m # ms"
  shows "runtime_ok (popped runtime i)"
    and "actor_count (popped runtime i) = actor_count runtime"
    and "mailbox (popped runtime i) i = ms"
    and "\<forall>j. j \<noteq> i \<longrightarrow> mailbox (popped runtime i) j = mailbox runtime j"
    and "fst (l3_queue_pop (message_queues runtime ! i)) = Some m"
    and "0 < count (message_queues runtime ! i)"
proof -
  have l: "length (message_queues runtime) = length (actors runtime)"
    and oks: "\<forall>j < length (message_queues runtime). queue_ok (message_queues runtime ! j)"
    using ok by (simp_all add: runtime_ok_nth)
  have qi: "queue_ok (message_queues runtime ! i)"
    using oks i l by (simp add: actor_count_def)
  note p = queue_pop [OF qi c [unfolded mailbox_def]]
  show "fst (l3_queue_pop (message_queues runtime ! i)) = Some m"
    and "0 < count (message_queues runtime ! i)"
    using p by simp_all
  show "actor_count (popped runtime i) = actor_count runtime"
    by (simp add: popped_def actor_count_def)
  show "mailbox (popped runtime i) i = ms"
    using p(4) i l by (simp add: popped_def mailbox_def actor_count_def)
  show "\<forall>j. j \<noteq> i \<longrightarrow> mailbox (popped runtime i) j = mailbox runtime j"
    by (simp add: popped_def mailbox_def)
  show "runtime_ok (popped runtime i)"
    unfolding runtime_ok_nth
    using l oks p(3) i by (auto simp add: popped_def nth_list_update actor_count_def)
qed

text \<open>One visit of the tick.\<close>

lemma tick_actor_empty:
  assumes "mailbox runtime i = []"
  shows "l3_tick_actor sh i runtime = Some runtime"
  using assms count_zero_iff_contents [of "message_queues runtime ! i"]
  by (simp add: l3_tick_actor_def mailbox_def Let_def)

lemma tick_actor_front:
  assumes "runtime_ok runtime" and "i < actor_count runtime"
    and "mailbox runtime i = m # ms"
  shows "l3_tick_actor sh i runtime = l3_deliver sh i m (popped runtime i)"
  using popped_runtime(5,6) [OF assms]
  by (simp add: l3_tick_actor_def Let_def popped_def)

lemma tick_actor_step:
  assumes ok: "runtime_ok runtime" and i: "i < actor_count runtime"
    and t: "l3_tick_actor sh i runtime = Some runtime'"
  shows "runtime_ok runtime'"
    and "actor_count runtime' = actor_count runtime"
    and "\<forall>j < actor_count runtime. j \<noteq> i \<longrightarrow> prefix (mailbox runtime j) (mailbox runtime' j)"
    and "\<forall>m ms. mailbox runtime i = m # ms \<longrightarrow> prefix ms (mailbox runtime' i)"
proof -
  have "runtime_ok runtime' \<and> actor_count runtime' = actor_count runtime
      \<and> (\<forall>j < actor_count runtime. j \<noteq> i \<longrightarrow> prefix (mailbox runtime j) (mailbox runtime' j))
      \<and> (\<forall>m ms. mailbox runtime i = m # ms \<longrightarrow> prefix ms (mailbox runtime' i))"
  proof (cases "mailbox runtime i")
    case Nil
    then have "runtime' = runtime"
      using t tick_actor_empty [of runtime i sh] by simp
    then show ?thesis
      using ok Nil by simp
  next
    case (Cons m ms)
    note p = popped_runtime [OF ok i Cons]
    have d: "l3_deliver sh i m (popped runtime i) = Some runtime'"
      using t tick_actor_front [OF ok i Cons, of sh] by simp
    note s = deliver_sends_only [OF p(1) d]
    have "prefix (mailbox runtime j) (mailbox runtime' j)"
      if "j < actor_count runtime" "j \<noteq> i" for j
      using s(3) p(2,4) that by auto
    moreover have "prefix ms (mailbox runtime' i)"
      using s(3) p(2,3) i by auto
    ultimately show ?thesis
      using s(1,2) p(2) Cons by simp
  qed
  then show "runtime_ok runtime'"
    and "actor_count runtime' = actor_count runtime"
    and "\<forall>j < actor_count runtime. j \<noteq> i \<longrightarrow> prefix (mailbox runtime j) (mailbox runtime' j)"
    and "\<forall>m ms. mailbox runtime i = m # ms \<longrightarrow> prefix ms (mailbox runtime' i)"
    by blast+
qed

text \<open>
  The rest of a tick from index \<open>i\<close> on: mailboxes already visited only grow, and a mailbox
  still to be visited loses at most its front message.
\<close>

lemma tick_loop_invariant:
  assumes "runtime_ok runtime" and "actor_count runtime = n"
    and "l3_tick_loop sh n i runtime = Some runtime'"
  shows "runtime_ok runtime' \<and> actor_count runtime' = n
       \<and> (\<forall>j < n. (j < i \<longrightarrow> prefix (mailbox runtime j) (mailbox runtime' j))
                 \<and> (i \<le> j \<longrightarrow> (\<forall>m ms. mailbox runtime j = m # ms
                                   \<longrightarrow> prefix ms (mailbox runtime' j))))"
  using assms
proof (induction "n - i" arbitrary: i runtime)
  case 0
  then have "runtime' = runtime" and "n \<le> i"
    by (simp_all add: l3_tick_loop.simps [of sh n i runtime])
  then show ?case
    using 0 by simp
next
  case (Suc k)
  then have lt: "i < n"
    by simp
  then obtain r1 where t: "l3_tick_actor sh i runtime = Some r1"
    and l: "l3_tick_loop sh n (i + 1) r1 = Some runtime'"
    using Suc.prems(3)
    by (auto simp add: l3_tick_loop.simps [of sh n i runtime] split: option.splits)
  have i: "i < actor_count runtime"
    using lt Suc.prems(2) by simp
  note s = tick_actor_step [OF Suc.prems(1) i t]
  have k: "k = n - (i + 1)"
    using Suc.hyps(2) by simp
  have r1n: "actor_count r1 = n"
    using s(2) Suc.prems(2) by simp
  note ih = Suc.hyps(1) [OF k s(1) r1n l]
  have "prefix (mailbox runtime j) (mailbox runtime' j)" if "j < n" "j < i" for j
  proof -
    have "prefix (mailbox runtime j) (mailbox r1 j)"
      using s(3) that Suc.prems(2) by simp
    moreover have "prefix (mailbox r1 j) (mailbox runtime' j)"
      using ih that by simp
    ultimately show ?thesis
      by (rule prefix_order.trans)
  qed
  moreover have "prefix ms (mailbox runtime' j)"
    if "j < n" "i \<le> j" "mailbox runtime j = m # ms" for j m ms
  proof (cases "j = i")
    case True
    have "prefix ms (mailbox r1 j)"
      using s(4) that(3) True by simp
    moreover have "prefix (mailbox r1 j) (mailbox runtime' j)"
      using ih that(1) True by simp
    ultimately show ?thesis
      by (rule prefix_order.trans)
  next
    case False
    then have "prefix (m # ms) (mailbox r1 j)"
      using s(3) that Suc.prems(2) by auto
    then obtain zs where z: "mailbox r1 j = m # (ms @ zs)"
      by (auto simp: prefix_def)
    have "i + 1 \<le> j"
      using False that(2) by simp
    then have "prefix (ms @ zs) (mailbox runtime' j)"
      using ih that(1) z by simp
    then show ?thesis
      using append_prefixD by blast
  qed
  ultimately show ?case
    using ih by blast
qed

text \<open>The loop visits the indices \<open>0, 1, ...\<close> in this order.\<close>

lemma tick_loop_fold:
  assumes "i \<le> n"
  shows "l3_tick_loop sh n i runtime
           = fold (\<lambda>k r. case r of None \<Rightarrow> None | Some rt \<Rightarrow> l3_tick_actor sh k rt)
               [i ..< n] (Some runtime)"
  using assms
proof (induction "n - i" arbitrary: i runtime)
  case 0
  then show ?case
    by (subst l3_tick_loop.simps) simp
next
  case (Suc k)
  then have lt: "i < n" and k: "k = n - (i + 1)" and le: "i + 1 \<le> n"
    by simp_all
  have none: "fold (\<lambda>k r. case r of None \<Rightarrow> None | Some rt \<Rightarrow> l3_tick_actor sh k rt) ks None
                = None" for ks
    by (induction ks) simp_all
  show ?case
  proof (cases "l3_tick_actor sh i runtime")
    case None
    then show ?thesis
      using lt by (simp add: l3_tick_loop.simps [of sh n i runtime] upt_conv_Cons none)
  next
    case (Some r1)
    then show ?thesis
      using lt Suc.hyps(1) [OF k le, of r1]
      by (simp add: l3_tick_loop.simps [of sh n i runtime] upt_conv_Cons)
  qed
qed

lemma runtime_init_ok: "runtime_ok l3_runtime_init"
  by (simp add: runtime_ok_def l3_runtime_init_def)

lemma spawn_actor_ok:
  assumes "runtime_ok runtime"
  shows "runtime_ok (snd (l3_spawn_actor runtime def))"
    and "butlast (actors (snd (l3_spawn_actor runtime def))) = actors runtime"
    and "actor_count (snd (l3_spawn_actor runtime def)) = Suc (actor_count runtime)"
    and "mailbox (snd (l3_spawn_actor runtime def)) (actor_count runtime) = []"
  using assms queue_create_ok
  by (simp_all add: l3_spawn_actor_def runtime_ok_def Let_def actor_count_def mailbox_def
      nth_append)

lemma find_actor_index_less:
  "find_actor_index as aid = Some k \<Longrightarrow> k < length as"
  by (induction as arbitrary: k) (auto split: if_splits)

lemma send_message_mailbox:
  assumes ok: "runtime_ok runtime" and f: "find_actor_index (actors runtime) aid = Some k"
  shows "runtime_ok (snd (l3_send_message runtime aid ev d))"
    and "actors (snd (l3_send_message runtime aid ev d)) = actors runtime"
    and "mailbox (snd (l3_send_message runtime aid ev d)) k
           = mailbox runtime k @ [new_message ev d]"
proof -
  let ?q = "snd (l3_queue_push (message_queues runtime ! k) ev d)"
  have r: "snd (l3_send_message runtime aid ev d)
             = runtime\<lparr>message_queues := (message_queues runtime)[k := ?q]\<rparr>"
    by (simp add: l3_send_message_def f split_beta Let_def)
  have l: "length (message_queues runtime) = length (actors runtime)"
    and oks: "\<forall>j < length (message_queues runtime). queue_ok (message_queues runtime ! j)"
    using ok by (simp_all add: runtime_ok_nth)
  have k: "k < length (message_queues runtime)"
    using find_actor_index_less [OF f] l by simp
  note p = queue_push [of "message_queues runtime ! k" ev d]
  show "actors (snd (l3_send_message runtime aid ev d)) = actors runtime"
    by (simp add: r)
  show "mailbox (snd (l3_send_message runtime aid ev d)) k
          = mailbox runtime k @ [new_message ev d]"
    using p(2) k oks by (simp add: r mailbox_def)
  show "runtime_ok (snd (l3_send_message runtime aid ev d))"
    unfolding runtime_ok_nth
    using l oks p(1) k by (auto simp add: r nth_list_update)
qed

text \<open>
  C6. In a runtime whose mailboxes are well-formed ring buffers (as spawning and sending
  leave them), for every actor index \<open>i\<close>:
  \<^item> a tick is the visits of the indices \<open>0, 1, ...\<close> in this order, which is the order of
    spawning, since \<open>l3_spawn_actor\<close> appends the new actor behind the others;
  \<^item> the visit of an actor with an empty mailbox changes nothing, and the visit of an actor
    whose mailbox is \<open>m # ms\<close> dequeues exactly \<open>m\<close>, the message enqueued earliest, leaves
    \<open>ms\<close> there and every other mailbox as it was, and delivers \<open>m\<close>;
  \<^item> over a whole tick that returns, a mailbox that held \<open>m # ms\<close> before holds \<open>ms\<close>,
    followed by whatever was sent to it meanwhile: one message was taken, the earliest;
  \<^item> \<open>l3_queue_push\<close> puts a message behind all messages waiting.
\<close>

theorem tick_round_robin_fifo:
  assumes "runtime_ok runtime" and "i < actor_count runtime"
  shows "l3_tick sh runtime
           = fold (\<lambda>k r. case r of None \<Rightarrow> None | Some rt \<Rightarrow> l3_tick_actor sh k rt)
               [0 ..< actor_count runtime] (Some runtime)
       \<and> butlast (actors (snd (l3_spawn_actor runtime def))) = actors runtime
       \<and> (mailbox runtime i = [] \<longrightarrow> l3_tick_actor sh i runtime = Some runtime)
       \<and> (\<forall>m ms. mailbox runtime i = m # ms
            \<longrightarrow> l3_tick_actor sh i runtime = l3_deliver sh i m (popped runtime i)
                \<and> mailbox (popped runtime i) i = ms
                \<and> (\<forall>j. j \<noteq> i \<longrightarrow> mailbox (popped runtime i) j = mailbox runtime j))
       \<and> (\<forall>runtime' m ms. l3_tick sh runtime = Some runtime' \<and> mailbox runtime i = m # ms
            \<longrightarrow> prefix ms (mailbox runtime' i))
       \<and> (\<forall>ev d. queue_contents (snd (l3_queue_push (message_queues runtime ! i) ev d))
                   = mailbox runtime i @ [new_message ev d])"
proof (intro conjI allI impI)
  show "l3_tick sh runtime
          = fold (\<lambda>k r. case r of None \<Rightarrow> None | Some rt \<Rightarrow> l3_tick_actor sh k rt)
              [0 ..< actor_count runtime] (Some runtime)"
    unfolding l3_tick_def by (rule tick_loop_fold) simp
  show "butlast (actors (snd (l3_spawn_actor runtime def))) = actors runtime"
    using spawn_actor_ok(2) [OF assms(1)] .
  show "l3_tick_actor sh i runtime = Some runtime" if "mailbox runtime i = []"
    using that by (rule tick_actor_empty)
next
  fix m ms
  assume c: "mailbox runtime i = m # ms"
  show "l3_tick_actor sh i runtime = l3_deliver sh i m (popped runtime i)"
    using assms c by (rule tick_actor_front)
  show "mailbox (popped runtime i) i = ms"
    using popped_runtime(3) [OF assms c] .
  show "mailbox (popped runtime i) j = mailbox runtime j" if "j \<noteq> i" for j
    using popped_runtime(4) [OF assms c] that by simp
next
  fix runtime' m ms
  assume "l3_tick sh runtime = Some runtime' \<and> mailbox runtime i = m # ms"
  then have t: "l3_tick_loop sh (actor_count runtime) 0 runtime = Some runtime'"
    and c: "mailbox runtime i = m # ms"
    by (simp_all add: l3_tick_def)
  show "prefix ms (mailbox runtime' i)"
    using tick_loop_invariant [OF assms(1) refl t] assms(2) c by simp
next
  fix ev d
  have "queue_ok (message_queues runtime ! i)"
    using assms by (simp add: runtime_ok_nth actor_count_def)
  then show "queue_contents (snd (l3_queue_push (message_queues runtime ! i) ev d))
          = mailbox runtime i @ [new_message ev d]"
    by (simp add: queue_push(2) mailbox_def)
qed

lemma log_handler: "l3_execute_handler sh ''log tick'' ctx = Some ctx"
proof -
  have t: "l3_trim ''log tick'' = ''log tick''"
    by (simp add: l3_trim_def isspace_def)
  have e: "l3_execute_block sh [''log tick''] (Suc 0) (Suc 0) 0 ctx = Some (Suc 0, ctx)"
    by (subst l3_execute_block.simps) simp
  have "l3_execute_block sh [''log tick''] 0 (Suc 0) 0 ctx = Some (Suc 0, ctx)"
    by (subst l3_execute_block.simps)
      (simp add: t l3_get_indent_def l3_starts_with_def for_bounds_def log_line e Let_def)
  then show ?thesis
    by (simp add: l3_execute_handler_def)
qed

lemma logger_runtime_facts:
  "runtime_ok logger_runtime"
  "actors logger_runtime
     = [\<lparr>actor_id = 1, name = ''Logger'', role = ''logs'', state = [],
         handlers = [\<lparr>event_name = ''e'', body_code = ''log tick''\<rparr>]\<rparr>]"
  "mailbox logger_runtime 0 = [\<lparr>event = ''e'', data = ''1''\<rparr>, \<lparr>event = ''e'', data = ''2''\<rparr>]"
proof -
  let ?r1 = "snd (l3_spawn_actor l3_runtime_init logger_def)"
  let ?r2 = "snd (l3_send_message ?r1 1 ''e'' (Some ''1''))"
  have ok1: "runtime_ok ?r1" and m1: "mailbox ?r1 0 = []"
    using spawn_actor_ok(1,4) [OF runtime_init_ok, of logger_def]
    by (simp_all add: actor_count_def l3_runtime_init_def)
  have a1: "actors ?r1
     = [\<lparr>actor_id = 1, name = ''Logger'', role = ''logs'', state = [],
         handlers = [\<lparr>event_name = ''e'', body_code = ''log tick''\<rparr>]\<rparr>]"
    by (simp add: l3_spawn_actor_def l3_runtime_init_def logger_def_def l3_state_create_def
        Let_def)
  have f1: "find_actor_index (actors ?r1) 1 = Some 0"
    by (simp add: a1)
  note s1 = send_message_mailbox [OF ok1 f1, of "''e''" "Some ''1''"]
  have f2: "find_actor_index (actors ?r2) 1 = Some 0"
    by (simp add: s1(2) a1)
  note s2 = send_message_mailbox [OF s1(1) f2, of "''e''" "Some ''2''"]
  show "runtime_ok logger_runtime"
    using s2(1) by (simp add: logger_runtime_def)
  show "actors logger_runtime
     = [\<lparr>actor_id = 1, name = ''Logger'', role = ''logs'', state = [],
         handlers = [\<lparr>event_name = ''e'', body_code = ''log tick''\<rparr>]\<rparr>]"
    using s2(2) s1(2) a1 by (simp add: logger_runtime_def)
  show "mailbox logger_runtime 0
          = [\<lparr>event = ''e'', data = ''1''\<rparr>, \<lparr>event = ''e'', data = ''2''\<rparr>]"
    using s2(3) s1(3) m1 by (simp add: logger_runtime_def new_message_def)
qed

theorem tick_round_robin_fifo_witness:
  "runtime_ok logger_runtime \<and> 0 < actor_count logger_runtime
   \<and> mailbox logger_runtime 0 = [\<lparr>event = ''e'', data = ''1''\<rparr>, \<lparr>event = ''e'', data = ''2''\<rparr>]
   \<and> l3_tick silent_shell logger_runtime = Some (popped logger_runtime 0)
   \<and> mailbox (popped logger_runtime 0) 0 = [\<lparr>event = ''e'', data = ''2''\<rparr>]"
proof -
  note f = logger_runtime_facts
  have h: "runtime_ok logger_runtime" "0 < actor_count logger_runtime"
    using f by (simp_all add: actor_count_def)
  note t = tick_round_robin_fifo [OF h, of silent_shell logger_def]
  have v: "l3_tick_actor silent_shell 0 logger_runtime
             = l3_deliver silent_shell 0 \<lparr>event = ''e'', data = ''1''\<rparr> (popped logger_runtime 0)"
    and m: "mailbox (popped logger_runtime 0) 0 = [\<lparr>event = ''e'', data = ''2''\<rparr>]"
    using t f(3) by simp_all
  have a: "actors (popped logger_runtime 0) = actors logger_runtime"
    by (simp add: popped_def)
  have d: "l3_deliver silent_shell 0 \<lparr>event = ''e'', data = ''1''\<rparr> (popped logger_runtime 0)
             = Some (popped logger_runtime 0)"
    by (simp add: l3_deliver_def a f(2) log_handler Let_def)
  have n: "actor_count logger_runtime = Suc 0"
    using f(2) by (simp add: actor_count_def)
  have "l3_tick silent_shell logger_runtime = Some (popped logger_runtime 0)"
    using t v d by (simp add: n)
  then show ?thesis
    using h m f(3) by simp
qed


end
